theory Spec2Isabelle
  imports Main
begin

section \<open>The layer store: data model\<close>

text \<open>
  A shallow embedding of the layer store (\<^verbatim>\<open>layerStore\<close> and its methods). The Go
  code mutates objects reached through pointers; here the \<^verbatim>\<open>roLayer\<close> objects live
  in an explicit heap, a list indexed by address, and a \<^verbatim>\<open>*roLayer\<close> is an index into
  it. Objects are never freed: a node deleted from the index stays in the heap, as a Go
  object stays alive while something points at it.

  \<^verbatim>\<open>ChainID\<close> and \<^verbatim>\<open>DiffID\<close> are digest strings; the empty string is "no parent".
\<close>

type_synonym ChainID = string
type_synonym DiffID = string

datatype error =
    ErrLayerDoesNotExist
  | ErrMountDoesNotExist
  | ErrMountNameConflict
  | ErrMaxDepthExceeded
  | ErrLayerNotRetained
  | LayerAlreadyExists
  | Failure string

text \<open>
  A call either returns (a Go result pair and the store as the call left it), or the
  process dies: a \<^verbatim>\<open>panic\<close>, or a recursion that never ends.
\<close>

datatype 'a outcome = Fatal string | Return 'a

text \<open>
  Modelled from the spec: the \<^verbatim>\<open>roLayer\<close> struct (section 3 of the specification);
  its declaration is not among the sources. \<^verbatim>\<open>referenceCount\<close> is a Go \<^verbatim>\<open>int\<close>,
  \<^verbatim>\<open>references\<close> the set of live handle objects, each identified by a number.
\<close>

record roLayer =
  chainID :: ChainID
  diffID :: DiffID
  parent :: "nat option"
  cacheID :: string
  size_l :: int
  descriptor :: string
  referenceCount :: int
  references :: "nat set"

text \<open>
  Modelled from the spec: the \<^verbatim>\<open>mountedLayer\<close> struct (section 3); its declaration
  is not among the sources. An empty \<^verbatim>\<open>initID\<close> means no init layer.
\<close>

record mountedLayer =
  name :: string
  mountID :: string
  initID :: string
  mparent :: "nat option"
  mreferences :: "nat set"

text \<open>
  The handles given to callers. \<^verbatim>\<open>Release\<close> uses a \<^verbatim>\<open>Layer\<close> only through its
  identity and its \<^verbatim>\<open>ChainID()\<close>; \<^verbatim>\<open>ReleaseRWLayer\<close> uses a \<^verbatim>\<open>RWLayer\<close> only
  through its identity and its \<^verbatim>\<open>Name()\<close>.
\<close>

record Layer =
  href :: nat
  layerChainID :: ChainID

record RWLayer =
  rwref :: nat
  rwName :: string

record Metadata =
  md_ChainID :: ChainID
  md_DiffID :: DiffID
  md_Size :: int
  md_DiffSize :: int

text \<open>
  Modelled from the spec: the metadata store (\<^verbatim>\<open>fileMetadataStore\<close>, section 4.1), which
  is not among the sources. One record per chain ID and one per mount name. A field that
  was never written is \<open>None\<close> and reading it fails; a missing parent or init ID reads as
  the empty string. \<open>orphans\<close> are the directories renamed to a \<^verbatim>\<open>-removing\<close> name,
  \<open>openTransactions\<close> counts the transactions neither committed nor cancelled.
\<close>

record layerRecord =
  rDiffID :: "DiffID option"
  rSize :: "int option"
  rCacheID :: "string option"
  rParent :: ChainID
  rDescriptor :: string

record mountRecord =
  rMountID :: "string option"
  rInitID :: string
  rMountParent :: ChainID

record fileMetadataStore =
  layerRecords :: "(ChainID \<times> layerRecord) list"
  mountRecords :: "(string \<times> mountRecord) list"
  orphans :: "(ChainID \<times> layerRecord) list"
  openTransactions :: nat

record layerStore =
  store :: fileMetadataStore
  driver :: "string set"
  heap :: "roLayer list"
  layerMap :: "ChainID \<rightharpoonup> nat"
  mounts :: "string \<rightharpoonup> mountedLayer"
  nextRef :: nat

text \<open>
  What the collaborators answer during one call: the graph driver, the metadata store's
  file operations, the random ID source and the digests. An answer \<open>None\<close> is success,
  \<open>Some err\<close> the error returned. The graph driver is the set \<open>driver\<close> of cache IDs
  that have a backing store; a successful \<^verbatim>\<open>Create\<close> adds the ID, a successful
  \<^verbatim>\<open>Remove\<close> deletes it, a failing call changes nothing.
\<close>

record env =
  randomID :: string
  mountIDOf :: "string \<Rightarrow> string"
  digest :: "string \<Rightarrow> DiffID"
  chainIDOf :: "ChainID \<Rightarrow> DiffID \<Rightarrow> ChainID"
  driverCreate :: "string \<Rightarrow> error option"
  driverCreateReadWrite :: "string \<Rightarrow> error option"
  driverRemove :: "string \<Rightarrow> error option"
  driverGet :: "string \<Rightarrow> error + string"
  driverPut :: "string \<Rightarrow> error option"
  applyDiff :: "string \<Rightarrow> string \<Rightarrow> string \<Rightarrow> error + int"
  startTransaction :: "error option"
  tarSplitWriter :: "error option"
  newInputTarStream :: "error option"
  storeLayerErr :: "error option"
  txCommit :: "ChainID \<Rightarrow> error option"
  txCancel :: "error option"
  osRename :: "ChainID \<Rightarrow> bool"
  osRemoveAll :: "ChainID \<Rightarrow> error option"
  setMountID :: "string \<Rightarrow> error option"
  setInitID :: "string \<Rightarrow> error option"
  setMountParent :: "string \<Rightarrow> error option"
  removeMount :: "string \<Rightarrow> error option"

definition maxLayerDepth :: nat where
  "maxLayerDepth = 125"

section \<open>Methods of the layer objects\<close>

definition updLayer :: "nat \<Rightarrow> (roLayer \<Rightarrow> roLayer) \<Rightarrow> layerStore \<Rightarrow> layerStore" where
  "updLayer a f ls = ls\<lparr>heap := (heap ls)[a := f (heap ls ! a)]\<rparr>"

text \<open>
  Modelled from the spec: \<^verbatim>\<open>roLayer.depth()\<close>, the root-to-node length of the parent
  chain (a root has depth 1), and \<^verbatim>\<open>roLayer.Size()\<close>, the cumulative size computed by
  walking the parents. Neither method is among the sources. \<open>None\<close>: the walk never
  reaches a root, or leaves the heap.
\<close>

partial_function (option) depth :: "roLayer list \<Rightarrow> nat \<Rightarrow> nat option" where
  "depth h a =
     (if a < length h then
        (case parent (h ! a) of
           None \<Rightarrow> Some 1
         | Some p \<Rightarrow> Option.bind (depth h p) (\<lambda>d. Some (d + 1)))
      else None)"

partial_function (option) Size :: "roLayer list \<Rightarrow> nat \<Rightarrow> int option" where
  "Size h a =
     (if a < length h then
        (case parent (h ! a) of
           None \<Rightarrow> Some (size_l (h ! a))
         | Some p \<Rightarrow> Option.bind (Size h p) (\<lambda>s. Some (size_l (h ! a) + s)))
      else None)"

declare depth.simps [code]
declare Size.simps [code]

text \<open>
  Modelled from the spec: the reference-set methods of \<^verbatim>\<open>roLayer\<close> and
  \<^verbatim>\<open>mountedLayer\<close>, which are not among the sources. \<^verbatim>\<open>getReference\<close> makes a fresh
  handle object and registers it in the node's reference set; the count is incremented
  by \<^verbatim>\<open>get\<close>, or starts at 1 in \<^verbatim>\<open>Register\<close>.
\<close>

definition hasReference :: "roLayer \<Rightarrow> Layer \<Rightarrow> bool" where
  "hasReference rl l \<longleftrightarrow> href l \<in> references rl"

definition hasReferences :: "roLayer \<Rightarrow> bool" where
  "hasReferences rl \<longleftrightarrow> references rl \<noteq> {}"

definition deleteReference :: "Layer \<Rightarrow> roLayer \<Rightarrow> roLayer" where
  "deleteReference l rl = rl\<lparr>references := references rl - {href l}\<rparr>"

definition getReference :: "layerStore \<Rightarrow> nat \<Rightarrow> Layer \<times> layerStore" where
  "getReference ls a =
     (\<lparr>href = nextRef ls, layerChainID = chainID (heap ls ! a)\<rparr>,
      (updLayer a (\<lambda>rl. rl\<lparr>references := insert (nextRef ls) (references rl)\<rparr>) ls)
        \<lparr>nextRef := nextRef ls + 1\<rparr>)"

definition mHasReferences :: "mountedLayer \<Rightarrow> bool" where
  "mHasReferences ml \<longleftrightarrow> mreferences ml \<noteq> {}"

definition mDeleteReference :: "RWLayer \<Rightarrow> mountedLayer \<Rightarrow> error + mountedLayer" where
  "mDeleteReference l ml =
     (if rwref l \<notin> mreferences ml then Inl ErrLayerNotRetained
      else Inr (ml\<lparr>mreferences := mreferences ml - {rwref l}\<rparr>))"

definition retakeReference :: "RWLayer \<Rightarrow> mountedLayer \<Rightarrow> mountedLayer" where
  "retakeReference l ml = ml\<lparr>mreferences := insert (rwref l) (mreferences ml)\<rparr>"

definition mGetReference :: "layerStore \<Rightarrow> mountedLayer \<Rightarrow> RWLayer \<times> layerStore" where
  "mGetReference ls ml =
     (\<lparr>rwref = nextRef ls, rwName = name ml\<rparr>,
      ls\<lparr>mounts := (mounts ls)(name ml \<mapsto>
            ml\<lparr>mreferences := insert (nextRef ls) (mreferences ml)\<rparr>),
         nextRef := nextRef ls + 1\<rparr>)"

section \<open>Read-only layers: get, deleteLayer, releaseLayer, Release\<close>

definition get :: "layerStore \<Rightarrow> ChainID \<Rightarrow> nat option \<times> layerStore" where
  "get ls layer =
     (case layerMap ls layer of
        None \<Rightarrow> (None, ls)
      | Some l \<Rightarrow>
          (Some l, updLayer l (\<lambda>rl. rl\<lparr>referenceCount := referenceCount rl + 1\<rparr>) ls))"

definition Get :: "layerStore \<Rightarrow> ChainID \<Rightarrow> (error + Layer) \<times> layerStore" where
  "Get ls l =
     (case get ls l of
        (None, ls') \<Rightarrow> (Inl ErrLayerDoesNotExist, ls')
      | (Some layer, ls') \<Rightarrow> (case getReference ls' layer of (h, ls'') \<Rightarrow> (Inr h, ls'')))"

text \<open>
  \<^verbatim>\<open>deleteLayer\<close>: the layer's metadata directory is renamed first (the retry on a name
  collision draws another random name, so the loop is modelled by its result: the record
  leaves \<open>layerRecords\<close> for \<open>orphans\<close> when the rename works; any other rename error
  is ignored by the code), then the driver removes the backing store, then the renamed
  directory is removed, then the \<^verbatim>\<open>Metadata\<close> is filled in.
\<close>

definition renameLayerDir :: "env \<Rightarrow> ChainID \<Rightarrow> fileMetadataStore \<Rightarrow> fileMetadataStore" where
  "renameLayerDir e c ms =
     (case map_of (layerRecords ms) c of
        None \<Rightarrow> ms
      | Some r \<Rightarrow>
          if osRename e c
          then ms\<lparr>layerRecords := filter (\<lambda>kv. fst kv \<noteq> c) (layerRecords ms),
                  orphans := orphans ms @ [(c, r)]\<rparr>
          else ms)"

definition removeRenamedDir :: "ChainID \<Rightarrow> fileMetadataStore \<Rightarrow> fileMetadataStore \<Rightarrow> fileMetadataStore" where
  "removeRenamedDir c before ms =
     (if length (orphans before) < length (orphans ms)
      then ms\<lparr>orphans := butlast (orphans ms)\<rparr> else ms)"

definition deleteLayer :: "env \<Rightarrow> layerStore \<Rightarrow> nat \<Rightarrow> ((error + Metadata) \<times> layerStore) option" where
  "deleteLayer e ls l =
     (let layer = heap ls ! l;
          ls1 = ls\<lparr>store := renameLayerDir e (chainID layer) (store ls)\<rparr>
      in case driverRemove e (cacheID layer) of
           Some err \<Rightarrow> Some (Inl err, ls1)
         | None \<Rightarrow>
             (let ls2 = ls1\<lparr>driver := driver ls1 - {cacheID layer}\<rparr>
              in case osRemoveAll e (chainID layer) of
                   Some err \<Rightarrow> Some (Inl err, ls2)
                 | None \<Rightarrow>
                     (let ls3 = ls2\<lparr>store := removeRenamedDir (chainID layer) (store ls) (store ls2)\<rparr>
                      in case Size (heap ls3) l of
                           None \<Rightarrow> None
                         | Some sz \<Rightarrow>
                             Some (Inr \<lparr>md_ChainID = chainID layer, md_DiffID = diffID layer,
                                        md_Size = sz, md_DiffSize = size_l layer\<rparr>, ls3))))"

lemma deleteLayer_heap:
  "deleteLayer e ls l = Some (r, ls') \<Longrightarrow> heap ls' = heap ls"
  by (auto simp: deleteLayer_def Let_def split: option.splits)

text \<open>
  The loop of \<^verbatim>\<open>releaseLayer\<close>, with its variables \<^verbatim>\<open>l\<close>, \<^verbatim>\<open>depth\<close> (here \<open>dep\<close>) and
  \<^verbatim>\<open>removed\<close> as arguments.
\<close>

function releaseLayer_loop ::
  "env \<Rightarrow> layerStore \<Rightarrow> nat \<Rightarrow> nat \<Rightarrow> Metadata list
     \<Rightarrow> ((error + Metadata list) \<times> layerStore) outcome" where
  "releaseLayer_loop e ls l dep removed =
     (if \<not> l < length (heap ls) then Fatal ''nil pointer dereference''
      else if referenceCount (heap ls ! l) = 0 then Fatal ''layer not retained''
      else
        (let ls1 = updLayer l (\<lambda>rl. rl\<lparr>referenceCount := referenceCount rl - 1\<rparr>) ls
         in if referenceCount (heap ls1 ! l) \<noteq> 0 then Return (Inr removed, ls1)
            else if length removed = 0 \<and> dep > 0 then Fatal ''cannot remove layer with child''
            else if hasReferences (heap ls1 ! l) then Fatal ''cannot delete referenced layer''
            else
              (let ls2 = ls1\<lparr>layerMap := (layerMap ls1)(chainID (heap ls1 ! l) := None)\<rparr>
               in case deleteLayer e ls2 l of
                    None \<Rightarrow> Fatal ''stack overflow''
                  | Some (Inl err, ls3) \<Rightarrow> Return (Inl err, ls3)
                  | Some (Inr metadata, ls3) \<Rightarrow>
                      (case parent (heap ls3 ! l) of
                         None \<Rightarrow> Return (Inr (removed @ [metadata]), ls3)
                       | Some p \<Rightarrow>
                           releaseLayer_loop e ls3 p (dep + 1) (removed @ [metadata])))))"
  by pat_completeness auto
termination
proof (relation "measure (\<lambda>(e, ls, l, dep, removed).
                    sum_list (map (\<lambda>rl. nat (referenceCount rl)) (heap ls)))", goal_cases)
  case 1
  show ?case by simp
next
  case (2 e ls l dep removed ls1 ls2 r res ls3 metadata p)
  let ?f = "\<lambda>rl. nat (referenceCount rl)"
  have "deleteLayer e ls2 l = Some (res, ls3)"
    using 2(8) 2(9) by simp
  then have "heap ls3 = heap ls2"
    by (rule deleteLayer_heap)
  then have h3: "heap ls3 = heap ls1"
    by (simp add: 2(7))
  have l: "l < length (heap ls)"
    using 2(1) by simp
  have h1: "heap ls1 = (heap ls)[l := (heap ls ! l)\<lparr>referenceCount := referenceCount (heap ls ! l) - 1\<rparr>]"
    by (simp add: 2(3) updLayer_def)
  have c0: "referenceCount (heap ls1 ! l) = 0"
    using 2(4) by simp
  have c1: "referenceCount (heap ls ! l) = 1"
    using c0 l by (simp add: h1)
  have m1: "(map ?f (heap ls)) ! l = 1"
    using l c1 by simp
  have "sum_list (map ?f (heap ls1)) = sum_list ((map ?f (heap ls))[l := 0])"
    using l c1 by (simp add: h1 map_update)
  also have "\<dots> = sum_list (map ?f (heap ls)) + 0 - (map ?f (heap ls)) ! l"
    using l by (subst sum_list_update) simp_all
  also have "\<dots> < sum_list (map ?f (heap ls))"
  proof -
    have "(map ?f (heap ls)) ! l \<in> set (map ?f (heap ls))"
      using l by (intro nth_mem) simp
    then have "(map ?f (heap ls)) ! l \<le> sum_list (map ?f (heap ls))"
      by (simp add: member_le_sum_list)
    then show ?thesis using m1 by simp
  qed
  finally show ?case
    by (simp add: h3)
qed

definition releaseLayer ::
  "env \<Rightarrow> layerStore \<Rightarrow> nat \<Rightarrow> ((error + Metadata list) \<times> layerStore) outcome" where
  "releaseLayer e ls l = releaseLayer_loop e ls l 0 []"

definition Release ::
  "env \<Rightarrow> layerStore \<Rightarrow> Layer \<Rightarrow> ((error + Metadata list) \<times> layerStore) outcome" where
  "Release e ls l =
     (case layerMap ls (layerChainID l) of
        None \<Rightarrow> Return (Inr [], ls)
      | Some layer \<Rightarrow>
          if \<not> hasReference (heap ls ! layer) l then Return (Inl ErrLayerNotRetained, ls)
          else releaseLayer e (updLayer layer (deleteReference l) ls) layer)"

section \<open>Register\<close>

text \<open>
  \<^verbatim>\<open>applyTar\<close>: the diff stream \<open>ts\<close> is the string of its bytes; the stream is
  always drained, so the digest is that of the whole stream.
\<close>

definition applyTar :: "env \<Rightarrow> string \<Rightarrow> string \<Rightarrow> roLayer \<Rightarrow> error + roLayer" where
  "applyTar e ts par layer =
     (case tarSplitWriter e of
        Some err \<Rightarrow> Inl err
      | None \<Rightarrow>
          (case newInputTarStream e of
             Some err \<Rightarrow> Inl err
           | None \<Rightarrow>
               (case applyDiff e (cacheID layer) par ts of
                  Inl err \<Rightarrow> Inl err
                | Inr applySize \<Rightarrow> Inr (layer\<lparr>size_l := applySize, diffID := digest e ts\<rparr>))))"

text \<open>
  Modelled from the spec: \<^verbatim>\<open>storeLayer\<close> (not among the sources) writes the layer's
  fields into the transaction; \<open>storeLayer\<close> is the record the transaction then holds,
  and a successful \<^verbatim>\<open>Commit\<close> files it under the chain ID.
\<close>

definition storeLayer :: "roLayer list \<Rightarrow> roLayer \<Rightarrow> layerRecord" where
  "storeLayer h layer =
     \<lparr>rDiffID = Some (diffID layer), rSize = Some (size_l layer),
      rCacheID = Some (cacheID layer),
      rParent = (case parent layer of None \<Rightarrow> [] | Some p \<Rightarrow> chainID (h ! p)),
      rDescriptor = descriptor layer\<rparr>"

definition commitRecord :: "ChainID \<Rightarrow> layerRecord \<Rightarrow> fileMetadataStore \<Rightarrow> fileMetadataStore" where
  "commitRecord c r ms =
     ms\<lparr>layerRecords := filter (\<lambda>kv. fst kv \<noteq> c) (layerRecords ms) @ [(c, r)],
        openTransactions := openTransactions ms - 1\<rparr>"

text \<open>
  The two deferred closures of \<^verbatim>\<open>registerWithDescriptor\<close>, which run when
  \<^verbatim>\<open>cErr\<close> is set, last registered first: the cleanup of the new backing store and
  of the transaction (\<open>cid\<close> is \<open>None\<close> while that closure is not yet registered; both
  errors are only logged), then the release of the parent (its result is dropped).
\<close>

definition cleanupLayer :: "env \<Rightarrow> string \<Rightarrow> layerStore \<Rightarrow> layerStore" where
  "cleanupLayer e cid ls =
     (let ls1 = (case driverRemove e cid of
                   None \<Rightarrow> ls\<lparr>driver := driver ls - {cid}\<rparr>
                 | Some err \<Rightarrow> ls)
      in case txCancel e of
           None \<Rightarrow> ls1\<lparr>store := (store ls1)\<lparr>openTransactions := openTransactions (store ls1) - 1\<rparr>\<rparr>
         | Some err \<Rightarrow> ls1)"

definition releaseParent :: "env \<Rightarrow> layerStore \<Rightarrow> nat option \<Rightarrow> layerStore outcome" where
  "releaseParent e ls p =
     (case p of
        None \<Rightarrow> Return ls
      | Some a \<Rightarrow>
          (case releaseLayer e ls a of
             Fatal msg \<Rightarrow> Fatal msg
           | Return (r, ls') \<Rightarrow> Return ls'))"

definition deferred ::
  "env \<Rightarrow> nat option \<Rightarrow> string option \<Rightarrow> 'a \<Rightarrow> layerStore \<Rightarrow> ('a \<times> layerStore) outcome" where
  "deferred e p cid res ls =
     (let ls1 = (case cid of None \<Rightarrow> ls | Some c \<Rightarrow> cleanupLayer e c ls)
      in case releaseParent e ls1 p of
           Fatal msg \<Rightarrow> Fatal msg
         | Return ls2 \<Rightarrow> Return (res, ls2))"

text \<open>
  \<^verbatim>\<open>registerWithDescriptor\<close>. The new \<^verbatim>\<open>roLayer\<close> is a local value until it is
  put into \<^verbatim>\<open>layerMap\<close>; only then does it get an address in the heap (the object
  of a call that fails or finds a duplicate is unreachable afterwards).
\<close>

definition registerWithDescriptor ::
  "env \<Rightarrow> layerStore \<Rightarrow> string \<Rightarrow> ChainID \<Rightarrow> string \<Rightarrow> ((error + Layer) \<times> layerStore) outcome" where
  "registerWithDescriptor e ls ts par descr =
     (case (if par \<noteq> [] then get ls par else (None, ls)) of
        (p, ls0) \<Rightarrow>
          if par \<noteq> [] \<and> p = None then Return (Inl ErrLayerDoesNotExist, ls0)
          else
            (case (case p of None \<Rightarrow> Some 0 | Some a \<Rightarrow> depth (heap ls0) a) of
               None \<Rightarrow> Fatal ''stack overflow''
             | Some d \<Rightarrow>
                 if p \<noteq> None \<and> maxLayerDepth \<le> d
                 then deferred e p None (Inl ErrMaxDepthExceeded) ls0
                 else
                   (let pid = (case p of None \<Rightarrow> [] | Some a \<Rightarrow> cacheID (heap ls0 ! a));
                        layer = \<lparr>chainID = [], diffID = [], parent = p, cacheID = randomID e,
                                 size_l = 0, descriptor = descr, referenceCount = 1,
                                 references = {}\<rparr>
                    in case driverCreate e (cacheID layer) of
                         Some err \<Rightarrow> deferred e p None (Inl err) ls0
                       | None \<Rightarrow>
                           (let ls1 = ls0\<lparr>driver := insert (cacheID layer) (driver ls0)\<rparr>
                            in case startTransaction e of
                                 Some err \<Rightarrow> deferred e p None (Inl err) ls1
                               | None \<Rightarrow>
                                   (let ls2 = ls1\<lparr>store := (store ls1)
                                                \<lparr>openTransactions := openTransactions (store ls1) + 1\<rparr>\<rparr>;
                                        cid = Some (cacheID layer)
                                    in case applyTar e ts pid layer of
                                         Inl err \<Rightarrow> deferred e p cid (Inl err) ls2
                                       | Inr layer1 \<Rightarrow>
                                           (let layer2 = layer1\<lparr>chainID :=
                                                  (case parent layer1 of
                                                     None \<Rightarrow> diffID layer1
                                                   | Some a \<Rightarrow> chainIDOf e (chainID (heap ls2 ! a)) (diffID layer1))\<rparr>
                                            in case storeLayerErr e of
                                                 Some err \<Rightarrow> deferred e p cid (Inl err) ls2
                                               | None \<Rightarrow>
                                                   (case get ls2 (chainID layer2) of
                                                      (Some existingLayer, ls3) \<Rightarrow>
                                                        (case getReference ls3 existingLayer of
                                                           (h, ls4) \<Rightarrow> deferred e p cid (Inr h) ls4)
                                                    | (None, ls3) \<Rightarrow>
                                                        (case txCommit e (chainID layer2) of
                                                           Some err \<Rightarrow> deferred e p cid (Inl err) ls3
                                                         | None \<Rightarrow>
                                                             (let ls4 = ls3\<lparr>store := commitRecord (chainID layer2)
                                                                          (storeLayer (heap ls3) layer2) (store ls3)\<rparr>;
                                                                  a = length (heap ls4);
                                                                  ls5 = ls4\<lparr>heap := heap ls4 @ [layer2],
                                                                            layerMap := (layerMap ls4)(chainID layer2 \<mapsto> a)\<rparr>
                                                              in case getReference ls5 a of
                                                                   (h, ls6) \<Rightarrow> Return (Inr h, ls6))))))))))"

definition Register ::
  "env \<Rightarrow> layerStore \<Rightarrow> string \<Rightarrow> ChainID \<Rightarrow> ((error + Layer) \<times> layerStore) outcome" where
  "Register e ls ts par = registerWithDescriptor e ls ts par []"

section \<open>Mounted layers: CreateRWLayer, ReleaseRWLayer\<close>

record CreateRWLayerOpts =
  MountLabel :: string
  StorageOpt :: "(string \<times> string) list"
  InitFunc :: "(string \<Rightarrow> error option) option"

definition initMount ::
  "env \<Rightarrow> layerStore \<Rightarrow> string \<Rightarrow> string \<Rightarrow> (string \<Rightarrow> error option)
     \<Rightarrow> (error + string) \<times> layerStore" where
  "initMount e ls graphID par initFunc =
     (let initID = graphID @ ''-init''
      in case driverCreateReadWrite e initID of
           Some err \<Rightarrow> (Inl err, ls)
         | None \<Rightarrow>
             (let ls1 = ls\<lparr>driver := insert initID (driver ls)\<rparr>
              in case driverGet e initID of
                   Inl err \<Rightarrow> (Inl err, ls1)
                 | Inr p \<Rightarrow>
                     (case initFunc p of
                        Some err \<Rightarrow> (Inl err, ls1)
                      | None \<Rightarrow>
                          (case driverPut e initID of
                             Some err \<Rightarrow> (Inl err, ls1)
                           | None \<Rightarrow> (Inr initID, ls1)))))"

definition updMountRecord ::
  "string \<Rightarrow> (mountRecord \<Rightarrow> mountRecord) \<Rightarrow> fileMetadataStore \<Rightarrow> fileMetadataStore" where
  "updMountRecord n f ms =
     (case map_of (mountRecords ms) n of
        None \<Rightarrow>
          ms\<lparr>mountRecords := mountRecords ms @
               [(n, f \<lparr>rMountID = None, rInitID = [], rMountParent = []\<rparr>)]\<rparr>
      | Some r \<Rightarrow>
          ms\<lparr>mountRecords := map (\<lambda>kv. if fst kv = n then (n, f (snd kv)) else kv) (mountRecords ms)\<rparr>)"

definition saveMount :: "env \<Rightarrow> layerStore \<Rightarrow> mountedLayer \<Rightarrow> error option \<times> layerStore" where
  "saveMount e ls mount =
     (case setMountID e (name mount) of
        Some err \<Rightarrow> (Some err, ls)
      | None \<Rightarrow>
          (let ls1 = ls\<lparr>store := updMountRecord (name mount)
                             (\<lambda>r. r\<lparr>rMountID := Some (mountID mount)\<rparr>) (store ls)\<rparr>
           in case (if initID mount \<noteq> [] then setInitID e (name mount) else None) of
                Some err \<Rightarrow> (Some err, ls1)
              | None \<Rightarrow>
                  (let ls2 = (if initID mount \<noteq> []
                              then ls1\<lparr>store := updMountRecord (name mount)
                                        (\<lambda>r. r\<lparr>rInitID := initID mount\<rparr>) (store ls1)\<rparr>
                              else ls1)
                   in case (case mparent mount of
                              None \<Rightarrow> None
                            | Some p \<Rightarrow> setMountParent e (name mount)) of
                        Some err \<Rightarrow> (Some err, ls2)
                      | None \<Rightarrow>
                          (let ls3 = (case mparent mount of
                                        None \<Rightarrow> ls2
                                      | Some p \<Rightarrow>
                                          ls2\<lparr>store := updMountRecord (name mount)
                                            (\<lambda>r. r\<lparr>rMountParent := chainID (heap ls2 ! p)\<rparr>) (store ls2)\<rparr>)
                           in (None, ls3\<lparr>mounts := (mounts ls3)(name mount \<mapsto> mount)\<rparr>)))))"

definition CreateRWLayer ::
  "env \<Rightarrow> layerStore \<Rightarrow> string \<Rightarrow> ChainID \<Rightarrow> CreateRWLayerOpts option
     \<Rightarrow> ((error + RWLayer) \<times> layerStore) outcome" where
  "CreateRWLayer e ls nm par opts =
     (let initFunc = (case opts of None \<Rightarrow> None | Some os \<Rightarrow> InitFunc os)
      in if mounts ls nm \<noteq> None then Return (Inl ErrMountNameConflict, ls)
         else
           (case (if par \<noteq> [] then get ls par else (None, ls)) of
              (p, ls0) \<Rightarrow>
                if par \<noteq> [] \<and> p = None then Return (Inl ErrLayerDoesNotExist, ls0)
                else
                  (let parentID = (case p of None \<Rightarrow> [] | Some a \<Rightarrow> cacheID (heap ls0 ! a));
                       m = \<lparr>name = nm, mountID = mountIDOf e nm, initID = [], mparent = p,
                            mreferences = {}\<rparr>
                   in case (case initFunc of
                              None \<Rightarrow> (Inr (parentID, m), ls0)
                            | Some f \<Rightarrow>
                                (case initMount e ls0 (mountID m) parentID f of
                                   (Inl err, ls1) \<Rightarrow> (Inl err, ls1)
                                 | (Inr i, ls1) \<Rightarrow> (Inr (i, m\<lparr>initID := i\<rparr>), ls1))) of
                        (Inl err, ls1) \<Rightarrow> deferred e p None (Inl err) ls1
                      | (Inr (parentID', m'), ls1) \<Rightarrow>
                          (case driverCreateReadWrite e (mountID m') of
                             Some err \<Rightarrow> deferred e p None (Inl err) ls1
                           | None \<Rightarrow>
                               (let ls2 = ls1\<lparr>driver := insert (mountID m') (driver ls1)\<rparr>
                                in case saveMount e ls2 m' of
                                     (Some err, ls3) \<Rightarrow> deferred e p None (Inl err) ls3
                                   | (None, ls3) \<Rightarrow>
                                       (case mGetReference ls3 m' of
                                          (h, ls4) \<Rightarrow> Return (Inr h, ls4)))))))"

definition GetRWLayer :: "layerStore \<Rightarrow> string \<Rightarrow> (error + RWLayer) \<times> layerStore" where
  "GetRWLayer ls i =
     (case mounts ls i of
        None \<Rightarrow> (Inl ErrMountDoesNotExist, ls)
      | Some mount \<Rightarrow> (case mGetReference ls mount of (h, ls') \<Rightarrow> (Inr h, ls')))"

definition retake :: "RWLayer \<Rightarrow> mountedLayer \<Rightarrow> layerStore \<Rightarrow> layerStore" where
  "retake l m ls = ls\<lparr>mounts := (mounts ls)(rwName l \<mapsto> retakeReference l m)\<rparr>"

definition ReleaseRWLayer ::
  "env \<Rightarrow> layerStore \<Rightarrow> RWLayer \<Rightarrow> ((error + Metadata list) \<times> layerStore) outcome" where
  "ReleaseRWLayer e ls l =
     (case mounts ls (rwName l) of
        None \<Rightarrow> Return (Inr [], ls)
      | Some m0 \<Rightarrow>
          (case mDeleteReference l m0 of
             Inl err \<Rightarrow> Return (Inl err, ls)
           | Inr m \<Rightarrow>
               (let ls1 = ls\<lparr>mounts := (mounts ls)(rwName l \<mapsto> m)\<rparr>
                in if mHasReferences m then Return (Inr [], ls1)
                   else
                     (case driverRemove e (mountID m) of
                        Some err \<Rightarrow> Return (Inl err, retake l m ls1)
                      | None \<Rightarrow>
                          (let ls2 = ls1\<lparr>driver := driver ls1 - {mountID m}\<rparr>
                           in case (if initID m \<noteq> [] then driverRemove e (initID m) else None) of
                                Some err \<Rightarrow> Return (Inl err, retake l m ls2)
                              | None \<Rightarrow>
                                  (let ls3 = (if initID m \<noteq> []
                                              then ls2\<lparr>driver := driver ls2 - {initID m}\<rparr> else ls2)
                                   in case removeMount e (name m) of
                                        Some err \<Rightarrow> Return (Inl err, retake l m ls3)
                                      | None \<Rightarrow>
                                          (let ls4 = ls3\<lparr>store := (store ls3)\<lparr>mountRecords :=
                                                         filter (\<lambda>kv. fst kv \<noteq> name m)
                                                           (mountRecords (store ls3))\<rparr>\<rparr>;
                                               ls5 = ls4\<lparr>mounts := (mounts ls4)(rwName l := None)\<rparr>
                                           in case mparent m of
                                                Some p \<Rightarrow> releaseLayer e ls5 p
                                              | None \<Rightarrow> Return (Inr [], ls5))))))))"

section \<open>Store construction: loadLayer, loadMount, newStoreFromGraphDriver\<close>

text \<open>
  Modelled from the spec: the read accessors of the metadata store (section 4.1), which
  are not among the sources. Reading a field that was never written fails; a layer
  without parent file has the empty parent, a mount without init or parent file the
  empty init ID or parent.
\<close>

definition GetDiffID :: "fileMetadataStore \<Rightarrow> ChainID \<Rightarrow> error + DiffID" where
  "GetDiffID ms c =
     (case map_of (layerRecords ms) c of
        None \<Rightarrow> Inl (Failure ''diff: no such file'')
      | Some r \<Rightarrow> (case rDiffID r of None \<Rightarrow> Inl (Failure ''diff: no such file'') | Some d \<Rightarrow> Inr d))"

definition GetSize :: "fileMetadataStore \<Rightarrow> ChainID \<Rightarrow> error + int" where
  "GetSize ms c =
     (case map_of (layerRecords ms) c of
        None \<Rightarrow> Inl (Failure ''size: no such file'')
      | Some r \<Rightarrow> (case rSize r of None \<Rightarrow> Inl (Failure ''size: no such file'') | Some n \<Rightarrow> Inr n))"

definition GetCacheID :: "fileMetadataStore \<Rightarrow> ChainID \<Rightarrow> error + string" where
  "GetCacheID ms c =
     (case map_of (layerRecords ms) c of
        None \<Rightarrow> Inl (Failure ''cache-id: no such file'')
      | Some r \<Rightarrow> (case rCacheID r of None \<Rightarrow> Inl (Failure ''cache-id: no such file'') | Some i \<Rightarrow> Inr i))"

definition GetParent :: "fileMetadataStore \<Rightarrow> ChainID \<Rightarrow> error + ChainID" where
  "GetParent ms c =
     (case map_of (layerRecords ms) c of None \<Rightarrow> Inr [] | Some r \<Rightarrow> Inr (rParent r))"

definition GetDescriptor :: "fileMetadataStore \<Rightarrow> ChainID \<Rightarrow> error + string" where
  "GetDescriptor ms c =
     (case map_of (layerRecords ms) c of None \<Rightarrow> Inr [] | Some r \<Rightarrow> Inr (rDescriptor r))"

definition GetMountID :: "fileMetadataStore \<Rightarrow> string \<Rightarrow> error + string" where
  "GetMountID ms n =
     (case map_of (mountRecords ms) n of
        None \<Rightarrow> Inl (Failure ''mount-id: no such file'')
      | Some r \<Rightarrow> (case rMountID r of None \<Rightarrow> Inl (Failure ''mount-id: no such file'') | Some i \<Rightarrow> Inr i))"

definition GetInitID :: "fileMetadataStore \<Rightarrow> string \<Rightarrow> error + string" where
  "GetInitID ms n =
     (case map_of (mountRecords ms) n of None \<Rightarrow> Inr [] | Some r \<Rightarrow> Inr (rInitID r))"

definition GetMountParent :: "fileMetadataStore \<Rightarrow> string \<Rightarrow> error + ChainID" where
  "GetMountParent ms n =
     (case map_of (mountRecords ms) n of None \<Rightarrow> Inr [] | Some r \<Rightarrow> Inr (rMountParent r))"

definition List_ids :: "fileMetadataStore \<Rightarrow> ChainID list \<times> string list" where
  "List_ids ms = (map fst (layerRecords ms), map fst (mountRecords ms))"

text \<open>
  \<^verbatim>\<open>loadLayer\<close> recurses along the persisted parent links, which the code does not
  check for cycles: \<open>None\<close> is a recursion that never ends.
\<close>

definition publish :: "roLayer \<Rightarrow> layerStore \<Rightarrow> (error + nat) \<times> layerStore" where
  "publish cl ls =
     (Inr (length (heap ls)),
      ls\<lparr>heap := heap ls @ [cl], layerMap := (layerMap ls)(chainID cl \<mapsto> length (heap ls))\<rparr>)"

partial_function (option) loadLayer ::
  "layerStore \<Rightarrow> ChainID \<Rightarrow> ((error + nat) \<times> layerStore) option" where
  "loadLayer ls layer =
     (case layerMap ls layer of
        Some cl \<Rightarrow> Some (Inr cl, ls)
      | None \<Rightarrow>
          (case GetDiffID (store ls) layer of
             Inl err \<Rightarrow> Some (Inl err, ls)
           | Inr diff \<Rightarrow>
               (case GetSize (store ls) layer of
                  Inl err \<Rightarrow> Some (Inl err, ls)
                | Inr sz \<Rightarrow>
                    (case GetCacheID (store ls) layer of
                       Inl err \<Rightarrow> Some (Inl err, ls)
                     | Inr cid \<Rightarrow>
                         (case GetParent (store ls) layer of
                            Inl err \<Rightarrow> Some (Inl err, ls)
                          | Inr par \<Rightarrow>
                              (case GetDescriptor (store ls) layer of
                                 Inl err \<Rightarrow> Some (Inl err, ls)
                               | Inr descr \<Rightarrow>
                                   (let cl = \<lparr>chainID = layer, diffID = diff, parent = None,
                                              cacheID = cid, size_l = sz, descriptor = descr,
                                              referenceCount = 0, references = {}\<rparr>
                                    in if par \<noteq> []
                                       then Option.bind (loadLayer ls par)
                                              (\<lambda>r. case r of
                                                     (Inl err, ls') \<Rightarrow> Some (Inl err, ls')
                                                   | (Inr p, ls') \<Rightarrow>
                                                       Some (publish (cl\<lparr>parent := Some p\<rparr>) ls'))
                                       else Some (publish cl ls))))))))"

declare loadLayer.simps [code]

definition loadMount :: "layerStore \<Rightarrow> string \<Rightarrow> (error option \<times> layerStore) option" where
  "loadMount ls mount =
     (if mounts ls mount \<noteq> None then Some (None, ls)
      else
        (case GetMountID (store ls) mount of
           Inl err \<Rightarrow> Some (Some err, ls)
         | Inr mid \<Rightarrow>
             (case GetInitID (store ls) mount of
                Inl err \<Rightarrow> Some (Some err, ls)
              | Inr iid \<Rightarrow>
                  (case GetMountParent (store ls) mount of
                     Inl err \<Rightarrow> Some (Some err, ls)
                   | Inr par \<Rightarrow>
                       (let ml = \<lparr>name = mount, mountID = mid, initID = iid, mparent = None,
                                  mreferences = {}\<rparr>
                        in if par \<noteq> []
                           then (case loadLayer ls par of
                                   None \<Rightarrow> None
                                 | Some (Inl err, ls') \<Rightarrow> Some (Some err, ls')
                                 | Some (Inr p, ls') \<Rightarrow>
                                     (let ls'' = updLayer p
                                            (\<lambda>rl. rl\<lparr>referenceCount := referenceCount rl + 1\<rparr>) ls'
                                      in Some (None, ls''\<lparr>mounts := (mounts ls'')
                                                 (name ml \<mapsto> ml\<lparr>mparent := Some p\<rparr>)\<rparr>)))
                           else Some (None, ls\<lparr>mounts := (mounts ls)(name ml \<mapsto> ml)\<rparr>))))))"

text \<open>The two loops of \<^verbatim>\<open>newStoreFromGraphDriver\<close>; a layer or mount that fails to load is skipped.\<close>

fun loadLayers :: "layerStore \<Rightarrow> ChainID list \<Rightarrow> layerStore option" where
  "loadLayers ls [] = Some ls"
| "loadLayers ls (i # ids) =
     (case loadLayer ls i of
        None \<Rightarrow> None
      | Some (Inl err, ls') \<Rightarrow> loadLayers ls' ids
      | Some (Inr l, ls') \<Rightarrow>
          (case parent (heap ls' ! l) of
             None \<Rightarrow> loadLayers ls' ids
           | Some p \<Rightarrow>
               loadLayers (updLayer p (\<lambda>rl. rl\<lparr>referenceCount := referenceCount rl + 1\<rparr>) ls') ids))"

fun loadMounts :: "layerStore \<Rightarrow> string list \<Rightarrow> layerStore option" where
  "loadMounts ls [] = Some ls"
| "loadMounts ls (m # ms) =
     (case loadMount ls m of
        None \<Rightarrow> None
      | Some (r, ls') \<Rightarrow> loadMounts ls' ms)"

text \<open>
  \<^verbatim>\<open>newStoreFromGraphDriver\<close>, given the metadata directory as \<^verbatim>\<open>newFSMetadataStore\<close>
  opens it and the driver; \<open>openErr\<close> and \<open>listErr\<close> are the errors of opening the
  directory and of listing it.
\<close>

definition newStoreFromGraphDriver ::
  "error option \<Rightarrow> error option \<Rightarrow> fileMetadataStore \<Rightarrow> string set \<Rightarrow> (error + layerStore) option" where
  "newStoreFromGraphDriver openErr listErr ms drv =
     (case openErr of
        Some err \<Rightarrow> Some (Inl err)
      | None \<Rightarrow>
          (let ls = \<lparr>store = ms, driver = drv, heap = [], layerMap = Map.empty,
                     mounts = Map.empty, nextRef = 0\<rparr>
           in case listErr of
                Some err \<Rightarrow> Some (Inl err)
              | None \<Rightarrow>
                  (case List_ids ms of
                     (ids, mnts) \<Rightarrow>
                       (case loadLayers ls ids of
                          None \<Rightarrow> None
                        | Some ls1 \<Rightarrow>
                            (case loadMounts ls1 mnts of
                               None \<Rightarrow> None
                             | Some ls2 \<Rightarrow> Some (Inr ls2))))))"

section \<open>Example stores\<close>

text \<open>
  A world in which every collaborator call succeeds, and the store built on an empty
  metadata directory. The digest and chain ID functions are stand-ins for SHA-256.
\<close>

definition okEnv :: env where
  "okEnv =
     \<lparr>randomID = ''cache1'',
      mountIDOf = (\<lambda>n. ''mnt-'' @ n),
      digest = (\<lambda>ts. ''sha256:'' @ ts),
      chainIDOf = (\<lambda>p d. p @ ''/'' @ d),
      driverCreate = (\<lambda>i. None),
      driverCreateReadWrite = (\<lambda>i. None),
      driverRemove = (\<lambda>i. None),
      driverGet = (\<lambda>i. Inr (''/var/lib/'' @ i)),
      driverPut = (\<lambda>i. None),
      applyDiff = (\<lambda>i p ts. Inr (int (length ts))),
      startTransaction = None,
      tarSplitWriter = None,
      newInputTarStream = None,
      storeLayerErr = None,
      txCommit = (\<lambda>c. None),
      txCancel = None,
      osRename = (\<lambda>c. True),
      osRemoveAll = (\<lambda>c. None),
      setMountID = (\<lambda>n. None),
      setInitID = (\<lambda>n. None),
      setMountParent = (\<lambda>n. None),
      removeMount = (\<lambda>n. None)\<rparr>"

definition emptyStore :: layerStore where
  "emptyStore =
     \<lparr>store = \<lparr>layerRecords = [], mountRecords = [], orphans = [], openTransactions = 0\<rparr>,
      driver = {}, heap = [], layerMap = Map.empty, mounts = Map.empty, nextRef = 0\<rparr>"

text \<open>
  \<open>store1\<close>: the empty store after \<^verbatim>\<open>Register\<close> of a root layer with diff \<open>A\<close>; the
  caller holds handle 0.
\<close>

definition layerA :: roLayer where
  "layerA = \<lparr>chainID = ''sha256:A'', diffID = ''sha256:A'', parent = None, cacheID = ''cache1'',
              size_l = 1, descriptor = [], referenceCount = 1, references = {0}\<rparr>"

definition recordA :: layerRecord where
  "recordA = \<lparr>rDiffID = Some ''sha256:A'', rSize = Some 1, rCacheID = Some ''cache1'',
               rParent = [], rDescriptor = []\<rparr>"

definition store1 :: layerStore where
  "store1 =
     \<lparr>store = \<lparr>layerRecords = [(''sha256:A'', recordA)], mountRecords = [], orphans = [],
                openTransactions = 0\<rparr>,
      driver = {''cache1''}, heap = [layerA], layerMap = [''sha256:A'' \<mapsto> 0],
      mounts = Map.empty, nextRef = 1\<rparr>"

text \<open>
  Abbreviations used in the statements: the chain ID that \<^verbatim>\<open>Register\<close> computes for
  a diff on parent \<open>p\<close>, the parent's cache ID, a parent identifier that resolves to a
  node with a positive reference count (\<open>None\<close> for the empty identifier), and a
  parent identifier that, if it is in the index, names such a node.
\<close>

definition newChainID :: "env \<Rightarrow> layerStore \<Rightarrow> nat option \<Rightarrow> string \<Rightarrow> ChainID" where
  "newChainID e ls p ts =
     (case p of None \<Rightarrow> digest e ts
      | Some a \<Rightarrow> chainIDOf e (chainID (heap ls ! a)) (digest e ts))"

definition parentCacheID :: "layerStore \<Rightarrow> nat option \<Rightarrow> string" where
  "parentCacheID ls p = (case p of None \<Rightarrow> [] | Some a \<Rightarrow> cacheID (heap ls ! a))"

definition resolves :: "layerStore \<Rightarrow> ChainID \<Rightarrow> nat option \<Rightarrow> bool" where
  "resolves ls par p \<longleftrightarrow>
     (if par = [] then p = None
      else \<exists>a. p = Some a \<and> layerMap ls par = Some a \<and> a < length (heap ls) \<and>
               0 < referenceCount (heap ls ! a))"


text \<open>
  \<open>store2\<close>: \<open>store1\<close> after \<^verbatim>\<open>Register\<close> of a layer with diff \<open>B\<close> on top of the
  root; the caller holds handle 0 on the root and handle 1 on the child.
\<close>

definition layerB :: roLayer where
  "layerB = \<lparr>chainID = ''sha256:A/sha256:B'', diffID = ''sha256:B'', parent = Some 0,
              cacheID = ''cache2'', size_l = 1, descriptor = [], referenceCount = 1,
              references = {1}\<rparr>"

definition recordB :: layerRecord where
  "recordB = \<lparr>rDiffID = Some ''sha256:B'', rSize = Some 1, rCacheID = Some ''cache2'',
               rParent = ''sha256:A'', rDescriptor = []\<rparr>"

definition store2 :: layerStore where
  "store2 =
     \<lparr>store = \<lparr>layerRecords = [(''sha256:A'', recordA), (''sha256:A/sha256:B'', recordB)],
                mountRecords = [], orphans = [], openTransactions = 0\<rparr>,
      driver = {''cache1'', ''cache2''}, heap = [layerA\<lparr>referenceCount := 2\<rparr>, layerB],
      layerMap = [''sha256:A'' \<mapsto> 0, ''sha256:A/sha256:B'' \<mapsto> 1],
      mounts = Map.empty, nextRef = 2\<rparr>"

text \<open>
  The collaborator calls of \<^verbatim>\<open>CreateRWLayer\<close> for mount \<open>nm\<close> all succeed: the
  init layer (when an init function is given), the writable layer, and the three writes
  of \<^verbatim>\<open>saveMount\<close>.
\<close>

definition createSucceeds :: "env \<Rightarrow> string \<Rightarrow> CreateRWLayerOpts option \<Rightarrow> bool" where
  "createSucceeds e nm opts \<longleftrightarrow>
     driverCreateReadWrite e (mountIDOf e nm) = None \<and>
     setMountID e nm = None \<and> setInitID e nm = None \<and> setMountParent e nm = None \<and>
     (case opts of
        None \<Rightarrow> True
      | Some os \<Rightarrow>
          (case InitFunc os of
             None \<Rightarrow> True
           | Some f \<Rightarrow>
               driverCreateReadWrite e (mountIDOf e nm @ ''-init'') = None \<and>
               (case driverGet e (mountIDOf e nm @ ''-init'') of
                  Inl err \<Rightarrow> False
                | Inr pth \<Rightarrow> f pth = None) \<and>
               driverPut e (mountIDOf e nm @ ''-init'') = None))"

text \<open>
  \<open>storeM\<close>: \<open>store1\<close> after \<^verbatim>\<open>CreateRWLayer\<close> of the mount \<open>c1\<close> on the root
  layer, without init function; the caller holds the mount handle 1.
\<close>

definition mountC1 :: mountedLayer where
  "mountC1 = \<lparr>name = ''c1'', mountID = ''mnt-c1'', initID = [], mparent = Some 0,
               mreferences = {1}\<rparr>"

definition storeM :: layerStore where
  "storeM =
     \<lparr>store = \<lparr>layerRecords = [(''sha256:A'', recordA)],
                mountRecords = [(''c1'', \<lparr>rMountID = Some ''mnt-c1'', rInitID = [],
                                          rMountParent = ''sha256:A''\<rparr>)],
                orphans = [], openTransactions = 0\<rparr>,
      driver = {''cache1'', ''mnt-c1''}, heap = [layerA\<lparr>referenceCount := 2\<rparr>],
      layerMap = [''sha256:A'' \<mapsto> 0], mounts = [''c1'' \<mapsto> mountC1], nextRef = 2\<rparr>"

text \<open>
  The store after the removal steps of \<^verbatim>\<open>ReleaseRWLayer\<close> for mount \<open>m\<close>, before
  the parent chain is released: the writable and init backing stores, the mount record
  and the index entry are gone.
\<close>

definition unmounted :: "layerStore \<Rightarrow> RWLayer \<Rightarrow> mountedLayer \<Rightarrow> layerStore" where
  "unmounted ls l m =
     ls\<lparr>driver := driver ls - {mountID m} - (if initID m = [] then {} else {initID m}),
        store := (store ls)\<lparr>mountRecords :=
                   filter (\<lambda>kv. fst kv \<noteq> name m) (mountRecords (store ls))\<rparr>,
        mounts := (mounts ls)(rwName l := None)\<rparr>"

text \<open>
  The cascade of a release, in the words of the specification. \<open>chain h n a\<close> is the
  parent chain from node \<open>a\<close> upwards (at most \<open>n\<close> nodes, child first);
  \<open>cascade\<close> is its longest prefix of nodes whose count is 1, that is, drops to zero
  when decremented; \<open>stopper\<close> is the first node whose count stays positive, if the
  walk does not end at a root. \<open>cascaded\<close> is the store after the cascade: the nodes
  of the cascade have count zero and are gone from the index, from the graph driver and
  (where the rename worked) from the metadata store; the stopper's count is one less;
  everything else is untouched.
\<close>

fun chain :: "roLayer list \<Rightarrow> nat \<Rightarrow> nat \<Rightarrow> nat list" where
  "chain h 0 a = []"
| "chain h (Suc n) a = a # (case parent (h ! a) of None \<Rightarrow> [] | Some p \<Rightarrow> chain h n p)"

definition cascade :: "roLayer list \<Rightarrow> nat \<Rightarrow> nat \<Rightarrow> nat list" where
  "cascade h d a = takeWhile (\<lambda>b. referenceCount (h ! b) = 1) (chain h d a)"

definition stopper :: "roLayer list \<Rightarrow> nat \<Rightarrow> nat \<Rightarrow> nat option" where
  "stopper h d a =
     (case dropWhile (\<lambda>b. referenceCount (h ! b) = 1) (chain h d a) of
        [] \<Rightarrow> None
      | b # bs \<Rightarrow> Some b)"

definition releasedNode :: "roLayer list \<Rightarrow> nat list \<Rightarrow> nat option \<Rightarrow> nat \<Rightarrow> roLayer" where
  "releasedNode h D s b =
     (if b \<in> set D then (h ! b)\<lparr>referenceCount := 0\<rparr>
      else if s = Some b then (h ! b)\<lparr>referenceCount := referenceCount (h ! b) - 1\<rparr>
      else h ! b)"

definition cascaded :: "env \<Rightarrow> layerStore \<Rightarrow> nat list \<Rightarrow> nat option \<Rightarrow> layerStore" where
  "cascaded e ls D s =
     ls\<lparr>heap := map (releasedNode (heap ls) D s) [0..<length (heap ls)],
        layerMap := (\<lambda>c. if c \<in> (\<lambda>b. chainID (heap ls ! b)) ` set D then None
                         else layerMap ls c),
        driver := driver ls - (\<lambda>b. cacheID (heap ls ! b)) ` set D,
        store := (store ls)\<lparr>layerRecords :=
                   filter (\<lambda>kv. \<not> (fst kv \<in> (\<lambda>b. chainID (heap ls ! b)) ` set D \<and>
                                    osRename e (fst kv)))
                     (layerRecords (store ls))\<rparr>\<rparr>"

definition describes :: "roLayer list \<Rightarrow> Metadata \<Rightarrow> nat \<Rightarrow> bool" where
  "describes h md b \<longleftrightarrow>
     md_ChainID md = chainID (h ! b) \<and> md_DiffID md = diffID (h ! b) \<and>
     md_DiffSize md = size_l (h ! b) \<and> Size h b = Some (md_Size md)"

text \<open>
  \<open>store3\<close>: a chain of three layers, root \<open>A\<close>, \<open>B\<close> on it and \<open>C\<close> on \<open>B\<close>,
  as \<^verbatim>\<open>Register\<close> builds it from \<open>store2\<close>, after the handles 0 and 1 on \<open>A\<close> and
  \<open>B\<close> have been released; the caller holds only handle 2 on the leaf. In
  \<open>store3'\<close> the handle 1 on \<open>B\<close> is still held.
\<close>

definition layerC :: roLayer where
  "layerC = \<lparr>chainID = ''sha256:A/sha256:B/sha256:C'', diffID = ''sha256:C'', parent = Some 1,
              cacheID = ''cache3'', size_l = 1, descriptor = [], referenceCount = 1,
              references = {2}\<rparr>"

definition recordC :: layerRecord where
  "recordC = \<lparr>rDiffID = Some ''sha256:C'', rSize = Some 1, rCacheID = Some ''cache3'',
               rParent = ''sha256:A/sha256:B'', rDescriptor = []\<rparr>"

definition store3' :: layerStore where
  "store3' =
     \<lparr>store = \<lparr>layerRecords = [(''sha256:A'', recordA), (''sha256:A/sha256:B'', recordB),
                                 (''sha256:A/sha256:B/sha256:C'', recordC)],
                mountRecords = [], orphans = [], openTransactions = 0\<rparr>,
      driver = {''cache1'', ''cache2'', ''cache3''},
      heap = [layerA\<lparr>referenceCount := 1, references := {}\<rparr>, layerB\<lparr>referenceCount := 2\<rparr>, layerC],
      layerMap = [''sha256:A'' \<mapsto> 0, ''sha256:A/sha256:B'' \<mapsto> 1,
                  ''sha256:A/sha256:B/sha256:C'' \<mapsto> 2],
      mounts = Map.empty, nextRef = 3\<rparr>"

definition store3 :: layerStore where
  "store3 = store3'\<lparr>heap := [layerA\<lparr>referenceCount := 1, references := {}\<rparr>,
                              layerB\<lparr>references := {}\<rparr>, layerC]\<rparr>"

section \<open>Properties\<close>

lemma register_store1:
  "Register okEnv emptyStore ''A'' [] = Return (Inr \<lparr>href = 0, layerChainID = ''sha256:A''\<rparr>, store1)"
  by (simp add: Register_def registerWithDescriptor_def okEnv_def emptyStore_def get_def
      getReference_def applyTar_def updLayer_def commitRecord_def storeLayer_def Let_def
      store1_def layerA_def recordA_def)

subsection \<open>Releasing what the store does not hold\<close>

text \<open>
  C10. Releasing an identity that is absent from the store is a silent no-op: when the
  handle's chain ID is not in the layer index, \<^verbatim>\<open>Release\<close> returns the empty
  metadata list and no error, and when the handle's name is not in the mounts index,
  \<^verbatim>\<open>ReleaseRWLayer\<close> does the same; the store is left as it was.
\<close>

theorem release_absent:
  "(layerMap ls (layerChainID l) = None \<longrightarrow> Release e ls l = Return (Inr [], ls)) \<and>
   (mounts ls (rwName r) = None \<longrightarrow> ReleaseRWLayer e ls r = Return (Inr [], ls))"
  by (simp add: Release_def ReleaseRWLayer_def)

theorem release_absent_witness:
  "layerMap store1 (layerChainID \<lparr>href = 0, layerChainID = ''sha256:B''\<rparr>) = None \<and>
   Release okEnv store1 \<lparr>href = 0, layerChainID = ''sha256:B''\<rparr> = Return (Inr [], store1) \<and>
   mounts store1 (rwName \<lparr>rwref = 3, rwName = ''c1''\<rparr>) = None \<and>
   ReleaseRWLayer okEnv store1 \<lparr>rwref = 3, rwName = ''c1''\<rparr> = Return (Inr [], store1)"
  using release_absent [of store1 "\<lparr>href = 0, layerChainID = ''sha256:B''\<rparr>" okEnv
      "\<lparr>rwref = 3, rwName = ''c1''\<rparr>"]
  by (simp add: store1_def)

text \<open>
  C8. When the handle's chain ID is in the layer index but the handle is not in that
  node's reference set, \<^verbatim>\<open>Release\<close> returns \<^verbatim>\<open>ErrLayerNotRetained\<close> and the whole
  store (reference counts, index, driver and metadata) is unchanged.
\<close>

theorem release_not_retained:
  "layerMap ls (layerChainID l) = Some a \<Longrightarrow> href l \<notin> references (heap ls ! a) \<Longrightarrow>
   Release e ls l = Return (Inl ErrLayerNotRetained, ls)"
  by (simp add: Release_def hasReference_def)

theorem release_not_retained_witness:
  "layerMap store1 (layerChainID \<lparr>href = 5, layerChainID = ''sha256:A''\<rparr>) = Some 0 \<and>
   href \<lparr>href = 5, layerChainID = ''sha256:A''\<rparr> \<notin> references (heap store1 ! 0) \<and>
   Release okEnv store1 \<lparr>href = 5, layerChainID = ''sha256:A''\<rparr>
     = Return (Inl ErrLayerNotRetained, store1)"
  using release_not_retained [of store1 "\<lparr>href = 5, layerChainID = ''sha256:A''\<rparr>" 0 okEnv]
  by (simp add: store1_def layerA_def)

lemma register_store2:
  "Register (okEnv\<lparr>randomID := ''cache2''\<rparr>) store1 ''B'' ''sha256:A''
     = Return (Inr \<lparr>href = 1, layerChainID = ''sha256:A/sha256:B''\<rparr>, store2)"
  by (simp add: Register_def registerWithDescriptor_def okEnv_def get_def
      getReference_def applyTar_def updLayer_def commitRecord_def storeLayer_def Let_def
      store1_def store2_def layerA_def recordA_def layerB_def recordB_def depth.simps
      maxLayerDepth_def insert_commute)

lemma depth_parents_Some:
  assumes "depth h a = Some d"
  shows "\<forall>h'. map parent h' = map parent h \<longrightarrow> depth h' a = Some d"
proof (rule depth.raw_induct[where P = "\<lambda>h a d. \<forall>h'. map parent h' = map parent h \<longrightarrow> depth h' a = Some d", OF _ assms], goal_cases)
  case (1 depth' h a d)
  show ?case
  proof (intro allI impI)
    fix h' :: "roLayer list"
    assume m: "map parent h' = map parent h"
    have len: "length h' = length h" using m by (rule map_eq_imp_length_eq)
    show "depth h' a = Some d"
    proof (cases "a < length h")
      case False
      then show ?thesis using 1(2) by simp
    next
      case True
      have "map parent h' ! a = map parent h ! a" using m by simp
      then have par: "parent (h' ! a) = parent (h ! a)"
        using True len by simp
      show ?thesis
      proof (cases "parent (h ! a)")
        case None
        then show ?thesis using 1(2) True par len by (subst depth.simps) simp
      next
        case (Some p)
        then obtain d' where d': "depth' h p = Some d'" "d = d' + 1"
          using 1(2) True by (auto simp: bind_eq_Some_conv)
        have "depth h' p = Some d'" using 1(1)[OF d'(1)] m by simp
        then show ?thesis using Some True par len d'(2) by (subst depth.simps) simp
      qed
    qed
  qed
qed

lemma depth_parents:
  assumes "map parent h' = map parent h"
  shows "depth h' a = depth h a"
proof (cases "depth h a")
  case (Some d)
  then show ?thesis using depth_parents_Some[OF Some] assms by simp
next
  case None
  show ?thesis
  proof (cases "depth h' a")
    case None': None
    then show ?thesis using None by simp
  next
    case (Some d)
    then have "depth h a = Some d" using depth_parents_Some[OF Some] assms by simp
    then show ?thesis using None by simp
  qed
qed

lemma releaseLayer_loop_decrement:
  assumes "l < length (heap ls)" "referenceCount (heap ls ! l) \<noteq> 0" "referenceCount (heap ls ! l) \<noteq> 1"
  shows "releaseLayer_loop e ls l dep removed =
           Return (Inr removed, updLayer l (\<lambda>rl. rl\<lparr>referenceCount := referenceCount rl - 1\<rparr>) ls)"
  using assms by (subst releaseLayer_loop.simps) (simp add: updLayer_def Let_def)

lemma updLayer_get_release:
  "l < length (heap ls) \<Longrightarrow>
   updLayer l (\<lambda>rl. rl\<lparr>referenceCount := referenceCount rl - 1\<rparr>)
     (updLayer l (\<lambda>rl. rl\<lparr>referenceCount := referenceCount rl + 1\<rparr>) ls) = ls"
  by (simp add: updLayer_def)


lemma depth_updLayer_count:
  "p < length (heap ls) \<Longrightarrow>
   depth (heap (updLayer p (\<lambda>rl. rl\<lparr>referenceCount := f rl\<rparr>) ls)) a = depth (heap ls) a"
  by (rule depth_parents) (simp add: updLayer_def map_update list_update_same_conv)

lemma get_Some:
  "layerMap ls c = Some p \<Longrightarrow>
   get ls c = (Some p, updLayer p (\<lambda>rl. rl\<lparr>referenceCount := referenceCount rl + 1\<rparr>) ls)"
  by (simp add: get_def)

lemma release_after_get:
  assumes "p < length (heap ls)" "0 < referenceCount (heap ls ! p)"
  shows "releaseLayer e (updLayer p (\<lambda>rl. rl\<lparr>referenceCount := referenceCount rl + 1\<rparr>) ls) p
           = Return (Inr [], ls)"
proof -
  let ?ls0 = "updLayer p (\<lambda>rl. rl\<lparr>referenceCount := referenceCount rl + 1\<rparr>) ls"
  have 1: "p < length (heap ?ls0)" using assms(1) by (simp add: updLayer_def)
  have 2: "referenceCount (heap ?ls0 ! p) \<noteq> 0" "referenceCount (heap ?ls0 ! p) \<noteq> 1"
    using assms by (simp_all add: updLayer_def)
  show ?thesis
    unfolding releaseLayer_def releaseLayer_loop_decrement[OF 1 2]
    using assms(1) by (simp add: updLayer_get_release)
qed

lemma releaseLayer_decrement:
  assumes "l < length (heap ls)" "referenceCount (heap ls ! l) \<noteq> 0" "referenceCount (heap ls ! l) \<noteq> 1"
  shows "releaseLayer e ls l =
           Return (Inr [], updLayer l (\<lambda>rl. rl\<lparr>referenceCount := referenceCount rl - 1\<rparr>) ls)"
  unfolding releaseLayer_def by (rule releaseLayer_loop_decrement[OF assms])

lemma depth_list_update_count:
  "a < length h \<Longrightarrow> depth (h[a := (h ! a)\<lparr>referenceCount := n\<rparr>]) b = depth h b"
  by (rule depth_parents) (simp add: map_update list_update_same_conv)

lemma roLayer_update_swap:
  "rl\<lparr>references := r, referenceCount := c\<rparr> = rl\<lparr>referenceCount := c, references := r\<rparr>"
  by (cases rl) simp






lemma deferred_result:
  "deferred e p cid res ls0 = Return (r, ls') \<Longrightarrow> r = res"
  by (auto simp: deferred_def Let_def split: outcome.splits)

lemma deferred_Inr_not_Inl [simp]:
  "deferred e p cid (Inr h) ls0 \<noteq> Return (Inl err, ls')"
  using deferred_result by fastforce




lemma register_depth_exceeded:
  assumes "par \<noteq> []" "layerMap ls par = Some p" "p < length (heap ls)"
    "depth (heap ls) p = Some d" "maxLayerDepth \<le> d" "0 < referenceCount (heap ls ! p)"
  shows "Register e ls ts par = Return (Inl ErrMaxDepthExceeded, ls)"
  unfolding Register_def registerWithDescriptor_def
  using assms(1,4,5)
  by (simp add: get_Some[OF assms(2)] depth_updLayer_count[OF assms(3)] deferred_def
      releaseParent_def release_after_get[OF assms(3,6)])

subsection \<open>Register\<close>

text \<open>
  C1. \<^verbatim>\<open>Register\<close> is idempotent under identical content. Let the parent identifier
  resolve (to nothing when empty, else to a node with a positive count and a depth below
  the bound), let the steps before the deduplication check succeed (driver
  \<^verbatim>\<open>Create\<close>, \<^verbatim>\<open>StartTransaction\<close>, \<^verbatim>\<open>applyTar\<close>, \<^verbatim>\<open>storeLayer\<close>), and
  let the computed chain ID (the diff ID for a root, the digest of parent chain ID and
  diff ID otherwise) already name node \<open>ex\<close> of the index. Then \<^verbatim>\<open>Register\<close>
  returns no error but a fresh handle to \<open>ex\<close>, whose reference count is incremented
  and whose reference set gains the handle; the index, the mounts, every other node
  (the parent's count included) and the committed layer records are as before; the new
  backing store is removed when the driver's \<^verbatim>\<open>Remove\<close> succeeds, and the
  transaction is gone when \<^verbatim>\<open>Cancel\<close> succeeds (their errors are only logged).
\<close>

theorem register_existing:
  assumes par: "resolves ls par p"
    and dep: "\<forall>a. p = Some a \<longrightarrow> (\<exists>d. depth (heap ls) a = Some d \<and> d < maxLayerDepth)"
    and steps: "driverCreate e (randomID e) = None" "startTransaction e = None"
      "tarSplitWriter e = None" "newInputTarStream e = None"
      "applyDiff e (randomID e) (parentCacheID ls p) ts = Inr sz" "storeLayerErr e = None"
    and ex: "layerMap ls (newChainID e ls p ts) = Some ex" "ex < length (heap ls)"
  shows "\<exists>ls'. Register e ls ts par =
            Return (Inr \<lparr>href = nextRef ls, layerChainID = chainID (heap ls ! ex)\<rparr>, ls') \<and>
          heap ls' = (heap ls)[ex := (heap ls ! ex)
             \<lparr>referenceCount := referenceCount (heap ls ! ex) + 1,
              references := insert (nextRef ls) (references (heap ls ! ex))\<rparr>] \<and>
          layerMap ls' = layerMap ls \<and> mounts ls' = mounts ls \<and> nextRef ls' = nextRef ls + 1 \<and>
          layerRecords (store ls') = layerRecords (store ls) \<and>
          (driverRemove e (randomID e) = None \<longrightarrow> driver ls' = driver ls - {randomID e}) \<and>
          (txCancel e = None \<longrightarrow> openTransactions (store ls') = openTransactions (store ls))"
proof (cases p)
  case None
  then have "par = []" using par by (auto simp: resolves_def split: if_splits)
  then show ?thesis
    unfolding Register_def registerWithDescriptor_def
    using None steps ex
    by (simp add: get_def getReference_def applyTar_def updLayer_def Let_def deferred_def
        releaseParent_def cleanupLayer_def newChainID_def parentCacheID_def split: option.splits)
next
  case (Some a)
  then have a: "par \<noteq> []" "layerMap ls par = Some a" "a < length (heap ls)"
    "0 < referenceCount (heap ls ! a)"
    using par by (auto simp: resolves_def split: if_splits)
  obtain d where d: "depth (heap ls) a = Some d" "d < maxLayerDepth"
    using dep Some by auto
  show ?thesis
  proof (cases "ex = a")
    case True
    show ?thesis
      unfolding Register_def registerWithDescriptor_def
      using Some a d steps ex True
      apply (simp add: get_def getReference_def applyTar_def updLayer_def Let_def deferred_def
        releaseParent_def cleanupLayer_def newChainID_def parentCacheID_def depth_list_update_count)
      apply (subst releaseLayer_decrement)
      apply (simp_all add: updLayer_def add.commute roLayer_update_swap split: option.splits)
      done
  next
    case False
    show ?thesis
      unfolding Register_def registerWithDescriptor_def
      using Some a d steps ex False
      apply (simp add: get_def getReference_def applyTar_def updLayer_def Let_def deferred_def
        releaseParent_def cleanupLayer_def newChainID_def parentCacheID_def depth_list_update_count)
      apply (subst releaseLayer_decrement)
      apply (simp_all add: updLayer_def list_update_swap add.commute roLayer_update_swap split: option.splits)
      done
  qed
qed

lemma depth_store2: "depth (heap store2) 0 = Some 1"
  by (simp add: store2_def layerA_def depth.simps)

theorem register_existing_witness:
  "resolves store2 ''sha256:A'' (Some 0) \<and>
   depth (heap store2) 0 = Some 1 \<and>
   layerMap store2 (newChainID (okEnv\<lparr>randomID := ''cache3''\<rparr>) store2 (Some 0) ''B'') = Some 1 \<and>
   (\<exists>ls'. Register (okEnv\<lparr>randomID := ''cache3''\<rparr>) store2 ''B'' ''sha256:A''
            = Return (Inr \<lparr>href = 2, layerChainID = ''sha256:A/sha256:B''\<rparr>, ls') \<and>
          referenceCount (heap ls' ! 1) = 2 \<and> references (heap ls' ! 1) = {1, 2} \<and>
          referenceCount (heap ls' ! 0) = 2 \<and> layerMap ls' = layerMap store2 \<and>
          driver ls' = driver store2 \<and>
          openTransactions (store ls') = openTransactions (store store2))"
proof -
  let ?e = "okEnv\<lparr>randomID := ''cache3''\<rparr>"
  have r: "resolves store2 ''sha256:A'' (Some 0)"
    by (simp add: resolves_def store2_def layerA_def)
  have dep: "\<forall>a. Some 0 = Some a \<longrightarrow> (\<exists>d. depth (heap store2) a = Some d \<and> d < maxLayerDepth)"
    using depth_store2 by (simp add: maxLayerDepth_def)
  have ex: "layerMap store2 (newChainID ?e store2 (Some 0) ''B'') = Some 1"
    by (simp add: newChainID_def okEnv_def store2_def layerA_def)
  have steps: "driverCreate ?e (randomID ?e) = None" "startTransaction ?e = None"
    "tarSplitWriter ?e = None" "newInputTarStream ?e = None"
    "applyDiff ?e (randomID ?e) (parentCacheID store2 (Some 0)) ''B'' = Inr 1"
    "storeLayerErr ?e = None"
    by (simp_all add: okEnv_def)
  have len: "1 < length (heap store2)"
    by (simp add: store2_def)
  have cl: "driverRemove ?e (randomID ?e) = None" "txCancel ?e = None"
    by (simp_all add: okEnv_def)
  obtain ls' where
    "Register ?e store2 ''B'' ''sha256:A''
       = Return (Inr \<lparr>href = nextRef store2, layerChainID = chainID (heap store2 ! 1)\<rparr>, ls')"
    "heap ls' = (heap store2)[1 := (heap store2 ! 1)
             \<lparr>referenceCount := referenceCount (heap store2 ! 1) + 1,
              references := insert (nextRef store2) (references (heap store2 ! 1))\<rparr>]"
    "layerMap ls' = layerMap store2"
    "driver ls' = driver store2 - {randomID ?e}"
    "openTransactions (store ls') = openTransactions (store store2)"
    using register_existing [OF r dep steps ex len] cl by blast
  then show ?thesis
    using r depth_store2 ex
    by (auto simp: store2_def layerA_def layerB_def okEnv_def)
qed

subsection \<open>Failing calls\<close>




subsection \<open>Mounted layers\<close>

lemma createRWLayer_storeM:
  "CreateRWLayer okEnv store1 ''c1'' ''sha256:A'' None
     = Return (Inr \<lparr>rwref = 1, rwName = ''c1''\<rparr>, storeM)"
  by (simp add: CreateRWLayer_def okEnv_def get_def saveMount_def updMountRecord_def
      mGetReference_def updLayer_def Let_def store1_def storeM_def mountC1_def layerA_def
      recordA_def insert_commute)

lemma releaseRWLayer_storeM:
  "ReleaseRWLayer okEnv storeM \<lparr>rwref = 1, rwName = ''c1''\<rparr>
     = Return (Inr [], store1\<lparr>nextRef := 2\<rparr>)"
  by (simp add: ReleaseRWLayer_def okEnv_def mDeleteReference_def mHasReferences_def
      updLayer_def Let_def store1_def storeM_def mountC1_def layerA_def recordA_def
      releaseLayer_def releaseLayer_loop.simps insert_Diff_if)

lemma createRWLayer_succeeds:
  assumes "mounts ls nm = None" "par = [] \<or> layerMap ls par \<noteq> None" "createSucceeds e nm opts"
  shows "\<exists>ls2 m. CreateRWLayer e ls nm par opts = Return (Inr \<lparr>rwref = nextRef ls, rwName = nm\<rparr>, ls2) \<and>
           mounts ls2 nm = Some m \<and> mreferences m = {nextRef ls} \<and> name m = nm \<and>
           mparent m = (if par = [] then None else layerMap ls par)"
  using assms unfolding CreateRWLayer_def createSucceeds_def
  by (auto simp: get_def Let_def initMount_def saveMount_def mGetReference_def updLayer_def
        split: option.splits sum.splits if_splits prod.splits)

text \<open>
  C9. Mount names are exclusive while held. \<^verbatim>\<open>CreateRWLayer\<close> with a name present
  in the mounts index fails with \<^verbatim>\<open>ErrMountNameConflict\<close> and changes nothing. After
  a \<^verbatim>\<open>ReleaseRWLayer\<close> that removed the mount of that name from the index, a
  \<^verbatim>\<open>CreateRWLayer\<close> with the same name (on no parent or a parent in the index, the
  collaborators' calls succeeding) returns a handle, and the name is in the index again.
\<close>

theorem mount_name_exclusive:
  "(mounts ls nm \<noteq> None \<longrightarrow>
      CreateRWLayer e ls nm par opts = Return (Inl ErrMountNameConflict, ls)) \<and>
   (mounts ls (rwName l) \<noteq> None \<and> ReleaseRWLayer e ls l = Return (r, ls1) \<and>
    mounts ls1 (rwName l) = None \<and>
    (par' = [] \<or> layerMap ls1 par' \<noteq> None) \<and> createSucceeds e' (rwName l) opts' \<longrightarrow>
      (\<exists>ls2 m. CreateRWLayer e' ls1 (rwName l) par' opts'
                  = Return (Inr \<lparr>rwref = nextRef ls1, rwName = rwName l\<rparr>, ls2) \<and>
               mounts ls2 (rwName l) = Some m \<and> mreferences m = {nextRef ls1}))"
proof (intro conjI impI)
  assume "mounts ls nm \<noteq> None"
  then show "CreateRWLayer e ls nm par opts = Return (Inl ErrMountNameConflict, ls)"
    by (simp add: CreateRWLayer_def)
next
  assume a: "mounts ls (rwName l) \<noteq> None \<and> ReleaseRWLayer e ls l = Return (r, ls1) \<and>
    mounts ls1 (rwName l) = None \<and>
    (par' = [] \<or> layerMap ls1 par' \<noteq> None) \<and> createSucceeds e' (rwName l) opts'"
  then show "\<exists>ls2 m. CreateRWLayer e' ls1 (rwName l) par' opts'
                  = Return (Inr \<lparr>rwref = nextRef ls1, rwName = rwName l\<rparr>, ls2) \<and>
               mounts ls2 (rwName l) = Some m \<and> mreferences m = {nextRef ls1}"
    using createRWLayer_succeeds [of ls1 "rwName l" par' e' opts'] by blast
qed

theorem mount_name_exclusive_witness:
  "mounts storeM ''c1'' \<noteq> None \<and>
   CreateRWLayer okEnv storeM ''c1'' ''sha256:A'' None = Return (Inl ErrMountNameConflict, storeM) \<and>
   ReleaseRWLayer okEnv storeM \<lparr>rwref = 1, rwName = ''c1''\<rparr>
     = Return (Inr [], store1\<lparr>nextRef := 2\<rparr>) \<and>
   mounts (store1\<lparr>nextRef := 2\<rparr>) ''c1'' = None \<and>
   layerMap (store1\<lparr>nextRef := 2\<rparr>) ''sha256:A'' \<noteq> None \<and>
   createSucceeds okEnv ''c1'' None \<and>
   (\<exists>ls2 m. CreateRWLayer okEnv (store1\<lparr>nextRef := 2\<rparr>) ''c1'' ''sha256:A'' None
               = Return (Inr \<lparr>rwref = 2, rwName = ''c1''\<rparr>, ls2) \<and>
            mounts ls2 ''c1'' = Some m \<and> mreferences m = {2})"
proof -
  let ?l = "\<lparr>rwref = 1, rwName = ''c1''\<rparr>"
  have 1: "mounts storeM ''c1'' \<noteq> None"
    by (simp add: storeM_def)
  have 2: "mounts (store1\<lparr>nextRef := 2\<rparr>) ''c1'' = None"
    "layerMap (store1\<lparr>nextRef := 2\<rparr>) ''sha256:A'' \<noteq> None"
    by (simp_all add: store1_def)
  have 3: "createSucceeds okEnv ''c1'' None"
    by (simp add: createSucceeds_def okEnv_def)
  show ?thesis
    using mount_name_exclusive [of storeM "''c1''" okEnv "''sha256:A''" None ?l "Inr []"
        "store1\<lparr>nextRef := 2\<rparr>" "''sha256:A''" okEnv None]
      1 2 3 releaseRWLayer_storeM
    by simp
qed

text \<open>
  C5. The contract of \<^verbatim>\<open>ReleaseRWLayer\<close>, for a handle \<open>l\<close> registered on the mount
  \<open>m\<close> of its name. While other references remain, the call returns the empty list
  and no error, and only removes \<open>l\<close> from the mount's reference set. For the last
  handle, when the removals succeed, the writable backing store, the init backing store
  (if any), the mount record and the index entry are removed and the result is that of
  releasing the parent chain (the empty list without parent). When a removal fails,
  the error is returned and the handle is retaken: the mounts index, the layer index
  and every count are exactly as before the call; what the earlier removal steps
  deleted from the graph driver stays deleted.
\<close>

theorem releaseRWLayer_contract:
  assumes "mounts ls (rwName l) = Some m" "rwref l \<in> mreferences m"
  shows "(mreferences m - {rwref l} \<noteq> {} \<longrightarrow>
            ReleaseRWLayer e ls l =
              Return (Inr [], ls\<lparr>mounts := (mounts ls)(rwName l \<mapsto>
                                   m\<lparr>mreferences := mreferences m - {rwref l}\<rparr>)\<rparr>)) \<and>
         (mreferences m = {rwref l} \<and> driverRemove e (mountID m) = None \<and>
          (initID m \<noteq> [] \<longrightarrow> driverRemove e (initID m) = None) \<and>
          removeMount e (name m) = None \<longrightarrow>
            ReleaseRWLayer e ls l =
              (case mparent m of
                 None \<Rightarrow> Return (Inr [], unmounted ls l m)
               | Some p \<Rightarrow> releaseLayer e (unmounted ls l m) p)) \<and>
         (mreferences m = {rwref l} \<and> driverRemove e (mountID m) = Some err \<longrightarrow>
            ReleaseRWLayer e ls l = Return (Inl err, ls)) \<and>
         (mreferences m = {rwref l} \<and> driverRemove e (mountID m) = None \<and>
          initID m \<noteq> [] \<and> driverRemove e (initID m) = Some err \<longrightarrow>
            ReleaseRWLayer e ls l = Return (Inl err, ls\<lparr>driver := driver ls - {mountID m}\<rparr>)) \<and>
         (mreferences m = {rwref l} \<and> driverRemove e (mountID m) = None \<and>
          (initID m \<noteq> [] \<longrightarrow> driverRemove e (initID m) = None) \<and>
          removeMount e (name m) = Some err \<longrightarrow>
            ReleaseRWLayer e ls l =
              Return (Inl err, ls\<lparr>driver := driver ls - {mountID m}
                                         - (if initID m = [] then {} else {initID m})\<rparr>))"
proof -
  have retaken: "mreferences m = {rwref l} \<Longrightarrow> m\<lparr>mreferences := {rwref l}\<rparr> = m"
    by (cases m) auto
  have triv: "(mounts ls)(rwName l \<mapsto> m) = mounts ls"
    using assms(1) by (simp add: map_upd_triv)
  show ?thesis
    using assms
    by (auto simp: ReleaseRWLayer_def mDeleteReference_def mHasReferences_def Let_def
        retake_def retakeReference_def unmounted_def retaken triv
        split: option.splits)
qed
theorem releaseRWLayer_contract_witness:
  "mounts storeM ''c1'' = Some mountC1 \<and> 1 \<in> mreferences mountC1 \<and>
   mreferences mountC1 = {1} \<and>
   ReleaseRWLayer okEnv storeM \<lparr>rwref = 1, rwName = ''c1''\<rparr>
     = releaseLayer okEnv (unmounted storeM \<lparr>rwref = 1, rwName = ''c1''\<rparr> mountC1) 0 \<and>
   ReleaseRWLayer okEnv storeM \<lparr>rwref = 1, rwName = ''c1''\<rparr>
     = Return (Inr [], store1\<lparr>nextRef := 2\<rparr>) \<and>
   ReleaseRWLayer (okEnv\<lparr>driverRemove := (\<lambda>i. Some (Failure ''busy''))\<rparr>) storeM
       \<lparr>rwref = 1, rwName = ''c1''\<rparr>
     = Return (Inl (Failure ''busy''), storeM) \<and>
   mounts (snd (GetRWLayer storeM ''c1'')) ''c1'' = Some (mountC1\<lparr>mreferences := {1, 2}\<rparr>) \<and>
   ReleaseRWLayer okEnv (snd (GetRWLayer storeM ''c1'')) \<lparr>rwref = 1, rwName = ''c1''\<rparr>
     = Return (Inr [], storeM\<lparr>mounts := [''c1'' \<mapsto> mountC1\<lparr>mreferences := {2}\<rparr>],
                               nextRef := 3\<rparr>)"
proof -
  let ?l = "\<lparr>rwref = 1, rwName = ''c1''\<rparr>"
  let ?bad = "okEnv\<lparr>driverRemove := (\<lambda>i. Some (Failure ''busy''))\<rparr>"
  let ?two = "snd (GetRWLayer storeM ''c1'')"
  have m: "mounts storeM (rwName ?l) = Some mountC1" "rwref ?l \<in> mreferences mountC1"
    by (simp_all add: storeM_def mountC1_def)
  have two: "?two = storeM\<lparr>mounts := [''c1'' \<mapsto> mountC1\<lparr>mreferences := {1, 2}\<rparr>], nextRef := 3\<rparr>"
    by (simp add: GetRWLayer_def mGetReference_def storeM_def mountC1_def insert_commute)
  have m2: "mounts ?two (rwName ?l) = Some (mountC1\<lparr>mreferences := {1, 2}\<rparr>)"
    "rwref ?l \<in> mreferences (mountC1\<lparr>mreferences := {1, 2}\<rparr>)"
    by (simp_all add: two)
  have ok: "driverRemove okEnv (mountID mountC1) = None" "initID mountC1 = []"
    "removeMount okEnv (name mountC1) = None" "mparent mountC1 = Some 0"
    "mreferences mountC1 = {1}"
    "driverRemove ?bad (mountID mountC1) = Some (Failure ''busy'')"
    by (simp_all add: okEnv_def mountC1_def)
  show ?thesis
    using releaseRWLayer_contract [OF m, of okEnv "Failure ''busy''"]
      releaseRWLayer_contract [OF m, of ?bad "Failure ''busy''"]
      releaseRWLayer_contract [OF m2, of okEnv "Failure ''busy''"]
      m m2 ok releaseRWLayer_storeM
    by (simp add: two insert_Diff_if)
qed

lemma depth_Some_iff:
  "depth h a = Some d \<longleftrightarrow>
     a < length h \<and>
     (case parent (h ! a) of None \<Rightarrow> d = 1
      | Some p \<Rightarrow> \<exists>d'. depth h p = Some d' \<and> d = d' + 1)"
  by (subst depth.simps) (auto simp: bind_eq_Some_conv split: option.splits)

lemma depth_pos: "depth h a = Some d \<Longrightarrow> 0 < d"
  by (subst (asm) depth_Some_iff) (auto split: option.splits)

lemma Size_parents_Some:
  assumes "Size h a = Some d"
  shows "\<forall>h'. map parent h' = map parent h \<and> map size_l h' = map size_l h \<longrightarrow> Size h' a = Some d"
proof (rule Size.raw_induct[where P = "\<lambda>h a d. \<forall>h'. map parent h' = map parent h \<and> map size_l h' = map size_l h \<longrightarrow> Size h' a = Some d", OF _ assms], goal_cases)
  case (1 Size' h a d)
  show ?case
  proof (intro allI impI)
    fix h' :: "roLayer list"
    assume m: "map parent h' = map parent h \<and> map size_l h' = map size_l h"
    have len: "length h' = length h" using m map_eq_imp_length_eq by blast
    show "Size h' a = Some d"
    proof (cases "a < length h")
      case False
      then show ?thesis using 1(2) by simp
    next
      case True
      have "map parent h' ! a = map parent h ! a" "map size_l h' ! a = map size_l h ! a" using m by simp_all
      then have par: "parent (h' ! a) = parent (h ! a)" "size_l (h' ! a) = size_l (h ! a)"
        using True len by simp_all
      show ?thesis
      proof (cases "parent (h ! a)")
        case None
        then show ?thesis using 1(2) True par len by (subst Size.simps) simp
      next
        case (Some p)
        then obtain d' where d': "Size' h p = Some d'" "d = size_l (h ! a) + d'"
          using 1(2) True by (auto simp: bind_eq_Some_conv)
        have "Size h' p = Some d'" using 1(1)[OF d'(1)] m by simp
        then show ?thesis using Some True par len d'(2) by (subst Size.simps) simp
      qed
    qed
  qed
qed

lemma Size_parents:
  assumes "map parent h' = map parent h" "map size_l h' = map size_l h"
  shows "Size h' a = Size h a"
proof (cases "Size h a")
  case (Some d)
  then show ?thesis using Size_parents_Some[OF Some] assms by simp
next
  case None
  show ?thesis
  proof (cases "Size h' a")
    case None': None
    then show ?thesis using None by simp
  next
    case (Some d)
    then have "Size h a = Some d" using Size_parents_Some[OF Some] assms by simp
    then show ?thesis using None by simp
  qed
qed

lemma depth_Size: "depth h a = Some d \<Longrightarrow> \<exists>s. Size h a = Some s"
proof (induction d arbitrary: a)
  case 0
  then show ?case using depth_pos by fastforce
next
  case (Suc d)
  then have a: "a < length h" by (subst (asm) depth_Some_iff) simp
  show ?case
  proof (cases "parent (h ! a)")
    case None
    then show ?thesis using a by (subst Size.simps) simp
  next
    case (Some p)
    then have "depth h p = Some d"
      using Suc.prems by (subst (asm) depth_Some_iff) simp
    then obtain s where "Size h p = Some s" using Suc.IH by blast
    then show ?thesis using a Some by (subst Size.simps) simp
  qed
qed

lemma chain_parents:
  "map parent h' = map parent h \<Longrightarrow> depth h a = Some d \<Longrightarrow> chain h' d a = chain h d a"
proof (induction d arbitrary: a)
  case 0
  then show ?case by simp
next
  case (Suc d)
  then have a: "a < length h" by (subst (asm) depth_Some_iff) simp
  have "map parent h' ! a = map parent h ! a" using Suc.prems(1) by simp
  moreover have "length h' = length h" using Suc.prems(1) by (rule map_eq_imp_length_eq)
  ultimately have par: "parent (h' ! a) = parent (h ! a)" using a by simp
  show ?case
  proof (cases "parent (h ! a)")
    case None
    then show ?thesis using par by simp
  next
    case (Some p)
    then have "depth h p = Some d"
      using Suc.prems by (subst (asm) depth_Some_iff) simp
    then show ?thesis using Suc.IH[OF Suc.prems(1)] Some par by simp
  qed
qed

lemma chain_depth:
  "depth h a = Some d \<Longrightarrow> b \<in> set (chain h d a) \<Longrightarrow> \<exists>k. depth h b = Some k \<and> 0 < k \<and> k \<le> d"
proof (induction d arbitrary: a)
  case 0
  then show ?case by simp
next
  case (Suc d)
  show ?case
  proof (cases "b = a")
    case True
    then show ?thesis using Suc.prems(1) by simp
  next
    case False
    then obtain p where p: "parent (h ! a) = Some p" "b \<in> set (chain h d p)"
      using Suc.prems(2) by (cases "parent (h ! a)") auto
    then have "depth h p = Some d"
      using Suc.prems(1) by (subst (asm) depth_Some_iff) simp
    then show ?thesis using Suc.IH p(2) by fastforce
  qed
qed

lemma chain_parent_not_self:
  assumes "depth h a = Some (Suc d)" "parent (h ! a) = Some p"
  shows "a \<notin> set (chain h d p)" "depth h p = Some d"
proof -
  show dp: "depth h p = Some d"
    using assms by (subst (asm) depth_Some_iff) simp
  show "a \<notin> set (chain h d p)"
  proof
    assume "a \<in> set (chain h d p)"
    then obtain k where "depth h a = Some k" "k \<le> d" using chain_depth[OF dp] by blast
    then show False using assms(1) by simp
  qed
qed

lemma chain_in_heap:
  "depth h a = Some d \<Longrightarrow> b \<in> set (chain h d a) \<Longrightarrow> b < length h"
  using chain_depth depth_Some_iff by blast


lemma heap_cascaded_single:
  "a < length h \<Longrightarrow>
   map (releasedNode h [a] None) [0..<length h] = h[a := (h ! a)\<lparr>referenceCount := 0\<rparr>]"
  by (rule nth_equalityI) (auto simp: releasedNode_def nth_list_update)

lemma heap_cascaded_nil:
  "a < length h \<Longrightarrow>
   map (releasedNode h [] (Some a)) [0..<length h]
     = h[a := (h ! a)\<lparr>referenceCount := referenceCount (h ! a) - 1\<rparr>]"
  by (rule nth_equalityI) (auto simp: releasedNode_def nth_list_update)

lemma cascaded_nil:
  "a < length (heap ls) \<Longrightarrow>
   cascaded e ls [] (Some a) = updLayer a (\<lambda>rl. rl\<lparr>referenceCount := referenceCount rl - 1\<rparr>) ls"
  by (simp add: cascaded_def heap_cascaded_nil updLayer_def)

lemma filter_absent_key:
  "map_of xs c = None \<Longrightarrow> filter (\<lambda>kv. fst kv \<noteq> c) xs = xs"
  by (induction xs) (auto split: if_splits)

lemma rename_remove:
  "removeRenamedDir c ms (renameLayerDir e c ms)
     = ms\<lparr>layerRecords := filter (\<lambda>kv. \<not> (fst kv = c \<and> osRename e (fst kv))) (layerRecords ms)\<rparr>"
proof (cases "map_of (layerRecords ms) c")
  case None
  then have "filter (\<lambda>kv. \<not> (fst kv = c \<and> osRename e (fst kv))) (layerRecords ms) = layerRecords ms"
    by (intro filter_True) (auto simp: map_of_eq_None_iff image_iff)
  then show ?thesis using None
    by (simp add: removeRenamedDir_def renameLayerDir_def)
next
  case (Some r)
  show ?thesis
  proof (cases "osRename e c")
    case True
    have "filter (\<lambda>kv. \<not> (fst kv = c \<and> osRename e (fst kv))) (layerRecords ms)
            = filter (\<lambda>kv. fst kv \<noteq> c) (layerRecords ms)"
      using True by (intro filter_cong) auto
    then show ?thesis using Some True
      by (simp add: removeRenamedDir_def renameLayerDir_def)
  next
    case False
    have "filter (\<lambda>kv. \<not> (fst kv = c \<and> osRename e (fst kv))) (layerRecords ms) = layerRecords ms"
      using False by (intro filter_True) auto
    then show ?thesis using Some False
      by (simp add: removeRenamedDir_def renameLayerDir_def)
  qed
qed

lemma deleteLayer_ok:
  assumes "driverRemove e (cacheID (heap ls ! a)) = None"
    "osRemoveAll e (chainID (heap ls ! a)) = None" "Size (heap ls) a = Some s"
  shows "deleteLayer e ls a =
           Some (Inr \<lparr>md_ChainID = chainID (heap ls ! a), md_DiffID = diffID (heap ls ! a),
                      md_Size = s, md_DiffSize = size_l (heap ls ! a)\<rparr>,
                 ls\<lparr>store := (store ls)\<lparr>layerRecords :=
                        filter (\<lambda>kv. \<not> (fst kv = chainID (heap ls ! a) \<and> osRename e (fst kv)))
                          (layerRecords (store ls))\<rparr>,
                    driver := driver ls - {cacheID (heap ls ! a)}\<rparr>)"
  using assms by (simp add: deleteLayer_def Let_def rename_remove)

lemma loop_step_delete:
  assumes "a < length (heap ls)" "referenceCount (heap ls ! a) = 1"
    "references (heap ls ! a) = {}" "driverRemove e (cacheID (heap ls ! a)) = None"
    "osRemoveAll e (chainID (heap ls ! a)) = None" "Size (heap ls) a = Some s"
    "dep = 0 \<or> removed \<noteq> []"
  shows "releaseLayer_loop e ls a dep removed =
           (let md = \<lparr>md_ChainID = chainID (heap ls ! a), md_DiffID = diffID (heap ls ! a),
                      md_Size = s, md_DiffSize = size_l (heap ls ! a)\<rparr>
            in case parent (heap ls ! a) of
                 None \<Rightarrow> Return (Inr (removed @ [md]), cascaded e ls [a] None)
               | Some p \<Rightarrow> releaseLayer_loop e (cascaded e ls [a] None) p (dep + 1) (removed @ [md]))"
proof -
  let ?h1 = "(heap ls)[a := (heap ls ! a)\<lparr>referenceCount := 0\<rparr>]"
  let ?ls2 = "ls\<lparr>heap := ?h1, layerMap := (layerMap ls)(chainID (heap ls ! a) := None)\<rparr>"
  have body: "releaseLayer_loop e ls a dep removed =
      (case deleteLayer e ?ls2 a of
         None \<Rightarrow> Fatal ''stack overflow''
       | Some (Inl err, ls3) \<Rightarrow> Return (Inl err, ls3)
       | Some (Inr metadata, ls3) \<Rightarrow>
           (case parent (heap ls3 ! a) of
              None \<Rightarrow> Return (Inr (removed @ [metadata]), ls3)
            | Some p \<Rightarrow> releaseLayer_loop e ls3 p (dep + 1) (removed @ [metadata])))"
    apply (subst releaseLayer_loop.simps)
    using assms(1,2,3,7)
    apply (auto simp add: updLayer_def Let_def hasReferences_def)
    done
  have f: "cacheID (heap ?ls2 ! a) = cacheID (heap ls ! a)" "chainID (heap ?ls2 ! a) = chainID (heap ls ! a)"
    "diffID (heap ?ls2 ! a) = diffID (heap ls ! a)" "size_l (heap ?ls2 ! a) = size_l (heap ls ! a)"
    using assms(1) by simp_all
  have "Size (heap ?ls2) a = Size (heap ls) a"
    using assms(1) by (intro Size_parents) (simp_all add: map_update list_update_same_conv)
  then have sz: "Size (heap ?ls2) a = Some s" using assms(6) by simp
  have m: "(\<lambda>c. if c \<in> (\<lambda>b. chainID (heap ls ! b)) ` set [a] then None else layerMap ls c)
             = (layerMap ls)(chainID (heap ls ! a) := None)"
    by (rule ext) simp
  have c: "cascaded e ls [a] None =
      ?ls2\<lparr>store := (store ?ls2)\<lparr>layerRecords :=
                        filter (\<lambda>kv. \<not> (fst kv = chainID (heap ?ls2 ! a) \<and> osRename e (fst kv)))
                          (layerRecords (store ?ls2))\<rparr>,
                    driver := driver ?ls2 - {cacheID (heap ?ls2 ! a)}\<rparr>"
    using assms(1)
    by (intro layerStore.equality) (auto simp: cascaded_def heap_cascaded_single fun_eq_iff)
  have del: "deleteLayer e ?ls2 a =
           Some (Inr \<lparr>md_ChainID = chainID (heap ls ! a), md_DiffID = diffID (heap ls ! a),
                      md_Size = s, md_DiffSize = size_l (heap ls ! a)\<rparr>, cascaded e ls [a] None)"
    unfolding c
    apply (subst deleteLayer_ok[OF _ _ sz])
    using assms(1,4,5) apply simp_all
    done
  have p3: "parent (heap (cascaded e ls [a] None) ! a) = parent (heap ls ! a)"
    using assms(1) by (simp add: cascaded_def heap_cascaded_single)
  show ?thesis
    unfolding body del by (simp add: p3 Let_def)
qed


lemma releasedNode_fields:
  "chainID (releasedNode h D s b) = chainID (h ! b)"
  "cacheID (releasedNode h D s b) = cacheID (h ! b)"
  "parent (releasedNode h D s b) = parent (h ! b)"
  "size_l (releasedNode h D s b) = size_l (h ! b)"
  "diffID (releasedNode h D s b) = diffID (h ! b)"
  "references (releasedNode h D s b) = references (h ! b)"
  by (simp_all add: releasedNode_def)

lemma cascaded_compose:
  assumes "a < length (heap ls)" "a \<notin> set D" "s \<noteq> Some a" "\<forall>b\<in>set D. b < length (heap ls)"
  shows "cascaded e (cascaded e ls [a] None) D s = cascaded e ls (a # D) s"
proof (intro layerStore.equality)
  let ?h = "heap ls"
  let ?h1 = "heap (cascaded e ls [a] None)"
  have h1: "?h1 = map (releasedNode ?h [a] None) [0..<length ?h]"
    by (simp add: cascaded_def)
  have ch: "(\<lambda>b. chainID (?h1 ! b)) ` set D = (\<lambda>b. chainID (?h ! b)) ` set D"
    using assms(4) by (intro image_cong) (simp_all add: h1 releasedNode_fields)
  have ca: "(\<lambda>b. cacheID (?h1 ! b)) ` set D = (\<lambda>b. cacheID (?h ! b)) ` set D"
    using assms(4) by (intro image_cong) (simp_all add: h1 releasedNode_fields)
  show "heap (cascaded e (cascaded e ls [a] None) D s) = heap (cascaded e ls (a # D) s)"
    using assms(1,2,3)
    by (intro nth_equalityI) (auto simp: cascaded_def releasedNode_def)
  show "layerMap (cascaded e (cascaded e ls [a] None) D s) = layerMap (cascaded e ls (a # D) s)"
    unfolding cascaded_def[of e "cascaded e ls [a] None"]
    by (simp add: ch) (auto simp: cascaded_def fun_eq_iff)
  show "driver (cascaded e (cascaded e ls [a] None) D s) = driver (cascaded e ls (a # D) s)"
    unfolding cascaded_def[of e "cascaded e ls [a] None"]
    by (simp add: ca) (auto simp: cascaded_def)
  show "store (cascaded e (cascaded e ls [a] None) D s) = store (cascaded e ls (a # D) s)"
  proof -
    have "filter (\<lambda>x. (fst x = chainID (heap ls ! a) \<longrightarrow> \<not> osRename e (chainID (heap ls ! a))) \<and>
              (fst x \<in> (\<lambda>b. chainID (heap ls ! b)) ` set D \<longrightarrow> \<not> osRename e (fst x)))
            (layerRecords (store ls))
        = filter (\<lambda>kv. fst kv \<noteq> chainID (heap ls ! a) \<and>
               fst kv \<notin> (\<lambda>x. chainID (heap ls ! x)) ` set D \<or> \<not> osRename e (fst kv))
            (layerRecords (store ls))"
      by (rule filter_cong) auto
    then show ?thesis
      unfolding cascaded_def[of e "cascaded e ls [a] None"]
      by (simp add: ch) (simp add: cascaded_def)
  qed
qed (simp_all add: cascaded_def)


lemma describes_parents:
  assumes "length h' = length h" "b < length h" "chainID (h' ! b) = chainID (h ! b)"
    "diffID (h' ! b) = diffID (h ! b)" "size_l (h' ! b) = size_l (h ! b)"
    "map parent h' = map parent h" "map size_l h' = map size_l h"
  shows "describes h' md b = describes h md b"
  using assms Size_parents[OF assms(6,7)] by (simp add: describes_def)

lemma releaseLayer_loop_cascade:
  assumes "depth (heap ls) a = Some d"
    and "\<forall>b\<in>set (chain (heap ls) d a). referenceCount (heap ls ! b) \<noteq> 0"
    and "\<forall>b\<in>set (cascade (heap ls) d a). references (heap ls ! b) = {} \<and>
            driverRemove e (cacheID (heap ls ! b)) = None \<and>
            osRemoveAll e (chainID (heap ls ! b)) = None"
    and "dep = 0 \<or> removed \<noteq> []"
  shows "\<exists>mds. releaseLayer_loop e ls a dep removed =
            Return (Inr (removed @ mds),
                    cascaded e ls (cascade (heap ls) d a) (stopper (heap ls) d a)) \<and>
          list_all2 (describes (heap ls)) mds (cascade (heap ls) d a)"
  using assms
proof (induction d arbitrary: ls a dep removed)
  case 0
  then show ?case using depth_pos by fastforce
next
  case (Suc d)
  let ?h = "heap ls"
  have a: "a < length ?h"
    using Suc.prems(1) by (subst (asm) depth_Some_iff) simp
  have c0: "referenceCount (?h ! a) \<noteq> 0"
    using Suc.prems(2) by simp
  show ?case
  proof (cases "referenceCount (?h ! a) = 1")
    case False
    then have "cascade ?h (Suc d) a = []" "stopper ?h (Suc d) a = Some a"
      by (simp_all add: cascade_def stopper_def)
    then show ?thesis
      using releaseLayer_loop_decrement[OF a c0 False] a by (simp add: cascaded_nil)
  next
    case True
    then have r: "references (?h ! a) = {}" "driverRemove e (cacheID (?h ! a)) = None"
      "osRemoveAll e (chainID (?h ! a)) = None"
      using Suc.prems(3) by (simp_all add: cascade_def)
    obtain sz where sz: "Size ?h a = Some sz"
      using depth_Size[OF Suc.prems(1)] by blast
    let ?md = "\<lparr>md_ChainID = chainID (?h ! a), md_DiffID = diffID (?h ! a),
                md_Size = sz, md_DiffSize = size_l (?h ! a)\<rparr>"
    let ?ls3 = "cascaded e ls [a] None"
    note step = loop_step_delete[OF a True r sz Suc.prems(4), unfolded Let_def]
    have md: "describes ?h ?md a"
      by (simp add: describes_def sz)
    show ?thesis
    proof (cases "parent (?h ! a)")
      case None
      then have "cascade ?h (Suc d) a = [a]" "stopper ?h (Suc d) a = None"
        using True by (simp_all add: cascade_def stopper_def)
      then show ?thesis
        using step None md by simp
    next
      case (Some p)
      have np: "a \<notin> set (chain ?h d p)" and dp: "depth ?h p = Some d"
        using chain_parent_not_self[OF Suc.prems(1) Some] by simp_all
      have h3: "heap ?ls3 = ?h[a := (?h ! a)\<lparr>referenceCount := 0\<rparr>]"
        using a by (simp add: cascaded_def heap_cascaded_single)
      have mp: "map parent (heap ?ls3) = map parent ?h" "map size_l (heap ?ls3) = map size_l ?h"
        using a by (simp_all add: h3 map_update list_update_same_conv)
      have d3: "depth (heap ?ls3) p = Some d"
        using depth_parents[OF mp(1)] dp by simp
      have ch3: "chain (heap ?ls3) d p = chain ?h d p"
        using chain_parents[OF mp(1) dp] .
      have same: "\<And>b. b \<in> set (chain ?h d p) \<Longrightarrow> heap ?ls3 ! b = ?h ! b"
      proof -
        fix b assume "b \<in> set (chain ?h d p)"
        then have "b \<noteq> a" using np by auto
        then show "heap ?ls3 ! b = ?h ! b" by (simp add: h3)
      qed
      have ca3: "cascade (heap ?ls3) d p = cascade ?h d p"
        unfolding cascade_def ch3 by (rule takeWhile_cong) (simp_all add: same)
      have st3: "stopper (heap ?ls3) d p = stopper ?h d p"
      proof -
        have "dropWhile (\<lambda>b. referenceCount (heap ?ls3 ! b) = 1) (chain ?h d p)
                = dropWhile (\<lambda>b. referenceCount (?h ! b) = 1) (chain ?h d p)"
          by (rule dropWhile_cong) (simp_all add: same)
        then show ?thesis by (simp add: stopper_def ch3)
      qed
      have sub: "set (cascade ?h d p) \<subseteq> set (chain ?h d p)"
        by (auto simp: cascade_def dest: set_takeWhileD)
      have whole: "cascade ?h (Suc d) a = a # cascade ?h d p" "stopper ?h (Suc d) a = stopper ?h d p"
        using True Some by (simp_all add: cascade_def stopper_def)
      have p1: "\<forall>b\<in>set (chain (heap ?ls3) d p). referenceCount (heap ?ls3 ! b) \<noteq> 0"
        using Suc.prems(2) Some by (simp add: ch3 same)
      have p2: "\<forall>b\<in>set (cascade (heap ?ls3) d p). references (heap ?ls3 ! b) = {} \<and>
            driverRemove e (cacheID (heap ?ls3 ! b)) = None \<and>
            osRemoveAll e (chainID (heap ?ls3 ! b)) = None"
        using Suc.prems(3) sub by (auto simp: ca3 same whole)
      obtain mds where mds:
        "releaseLayer_loop e ?ls3 p (dep + 1) (removed @ [?md]) =
            Return (Inr ((removed @ [?md]) @ mds),
                    cascaded e ?ls3 (cascade (heap ?ls3) d p) (stopper (heap ?ls3) d p))"
        "list_all2 (describes (heap ?ls3)) mds (cascade (heap ?ls3) d p)"
        using Suc.IH[OF d3 p1 p2, of "dep + 1" "removed @ [?md]"] by auto
      have inh: "\<forall>b\<in>set (cascade ?h d p). b < length ?h"
        using sub chain_in_heap[OF dp] by blast
      have sa: "stopper ?h d p \<noteq> Some a"
      proof
        assume "stopper ?h d p = Some a"
        then have "a \<in> set (dropWhile (\<lambda>b. referenceCount (?h ! b) = 1) (chain ?h d p))"
          by (auto simp: stopper_def split: list.splits)
        then show False using np set_dropWhileD by fastforce
      qed
      have comp: "cascaded e ?ls3 (cascade ?h d p) (stopper ?h d p)
                    = cascaded e ls (a # cascade ?h d p) (stopper ?h d p)"
        using cascaded_compose[OF a _ sa inh] np sub by blast
      have la: "list_all2 (describes ?h) mds (cascade ?h d p)"
      proof -
        have "\<And>md b. b \<in> set (cascade ?h d p) \<Longrightarrow> describes (heap ?ls3) md b = describes ?h md b"
          using inh sub same mp by (intro describes_parents) (auto simp: h3)
        then show ?thesis
          using mds(2) unfolding ca3
          by (auto elim!: list.rel_mono_strong)
      qed
      show ?thesis
        using step Some mds(1) la md by (simp add: ca3 st3 comp whole)
    qed
  qed
qed

subsection \<open>Release and its cascade\<close>

lemma store3_reached:
  "\<exists>ls1. Register (okEnv\<lparr>randomID := ''cache3''\<rparr>) store2 ''C'' ''sha256:A/sha256:B''
            = Return (Inr \<lparr>href = 2, layerChainID = ''sha256:A/sha256:B/sha256:C''\<rparr>, ls1) \<and>
         Release okEnv ls1 \<lparr>href = 0, layerChainID = ''sha256:A''\<rparr> = Return (Inr [], store3') \<and>
         Release okEnv store3' \<lparr>href = 1, layerChainID = ''sha256:A/sha256:B''\<rparr>
            = Return (Inr [], store3)"
  by (simp add: Register_def registerWithDescriptor_def okEnv_def get_def
      getReference_def applyTar_def updLayer_def commitRecord_def storeLayer_def Let_def
      store2_def store3_def store3'_def layerA_def recordA_def layerB_def recordB_def
      layerC_def recordC_def depth.simps maxLayerDepth_def insert_commute
      Release_def hasReference_def deleteReference_def releaseLayer_def
      releaseLayer_loop.simps numeral_2_eq_2)

text \<open>
  C2, as the code has it. Let handle \<open>l\<close> be registered on the indexed node \<open>a\<close>, let
  every node of \<open>a\<close>'s parent chain have a count other than zero, and let the nodes of
  the cascade (the longest prefix of the chain, from \<open>a\<close> upwards, of nodes whose count
  is 1) have no handle left once \<open>l\<close> is gone, with the driver and file removals
  succeeding for them. Then \<^verbatim>\<open>Release\<close> returns one \<^verbatim>\<open>Metadata\<close> per node of the
  cascade, child first; those nodes are gone from the index, from the graph driver and
  from the metadata store; the walk stops at the first node whose count stays positive,
  which is only decremented, and nothing above it is touched. If \<open>a\<close> itself is still
  held by a child, a mount or another handle (its count is not 1), the cascade is empty:
  the list is empty and \<open>a\<close> stays in the index.
\<close>

theorem release_cascade:
  assumes "layerMap ls (layerChainID l) = Some a" "href l \<in> references (heap ls ! a)"
    and "depth (heap ls) a = Some d"
    and "\<forall>b\<in>set (chain (heap ls) d a). referenceCount (heap ls ! b) \<noteq> 0"
    and "\<forall>b\<in>set (cascade (heap ls) d a).
            references (heap ls ! b) = (if b = a then {href l} else {}) \<and>
            driverRemove e (cacheID (heap ls ! b)) = None \<and>
            osRemoveAll e (chainID (heap ls ! b)) = None"
  shows "\<exists>mds. Release e ls l =
            Return (Inr mds, cascaded e (updLayer a (deleteReference l) ls)
                               (cascade (heap ls) d a) (stopper (heap ls) d a)) \<and>
          list_all2 (describes (heap ls)) mds (cascade (heap ls) d a)"
proof -
  let ?h = "heap ls"
  let ?ls0 = "updLayer a (deleteReference l) ls"
  have a: "a < length ?h"
    using assms(3) by (subst (asm) depth_Some_iff) simp
  have h0: "heap ?ls0 = ?h[a := (?h ! a)\<lparr>references := references (?h ! a) - {href l}\<rparr>]"
    by (simp add: updLayer_def deleteReference_def)
  have mp: "map parent (heap ?ls0) = map parent ?h" "map size_l (heap ?ls0) = map size_l ?h"
    using a by (simp_all add: h0 map_update list_update_same_conv)
  have cnt: "\<And>b. referenceCount (heap ?ls0 ! b) = referenceCount (?h ! b)"
    using a by (simp add: h0 nth_list_update)
  have d0: "depth (heap ?ls0) a = Some d"
    using depth_parents[OF mp(1)] assms(3) by simp
  have ch0: "chain (heap ?ls0) d a = chain ?h d a"
    using chain_parents[OF mp(1) assms(3)] .
  have ca0: "cascade (heap ?ls0) d a = cascade ?h d a"
    by (simp add: cascade_def ch0 cnt)
  have st0: "stopper (heap ?ls0) d a = stopper ?h d a"
    by (simp add: stopper_def ch0 cnt)
  have sub: "set (cascade ?h d a) \<subseteq> set (chain ?h d a)"
    by (auto simp: cascade_def dest: set_takeWhileD)
  have inh: "\<forall>b\<in>set (cascade ?h d a). b < length ?h"
    using sub chain_in_heap[OF assms(3)] by blast
  have p1: "\<forall>b\<in>set (chain (heap ?ls0) d a). referenceCount (heap ?ls0 ! b) \<noteq> 0"
    using assms(4) by (simp add: ch0 cnt)
  have p2: "\<forall>b\<in>set (cascade (heap ?ls0) d a). references (heap ?ls0 ! b) = {} \<and>
            driverRemove e (cacheID (heap ?ls0 ! b)) = None \<and>
            osRemoveAll e (chainID (heap ?ls0 ! b)) = None"
  proof (unfold ca0, intro ballI)
    fix b assume b: "b \<in> set (cascade ?h d a)"
    then have f: "references (?h ! b) = (if b = a then {href l} else {})"
      "driverRemove e (cacheID (?h ! b)) = None" "osRemoveAll e (chainID (?h ! b)) = None"
      using assms(5) by simp_all
    show "references (heap ?ls0 ! b) = {} \<and>
            driverRemove e (cacheID (heap ?ls0 ! b)) = None \<and>
            osRemoveAll e (chainID (heap ?ls0 ! b)) = None"
      using f a by (cases "b = a") (simp_all add: h0)
  qed
  obtain mds where mds:
    "releaseLayer_loop e ?ls0 a 0 [] =
       Return (Inr ([] @ mds), cascaded e ?ls0 (cascade (heap ?ls0) d a) (stopper (heap ?ls0) d a))"
    "list_all2 (describes (heap ?ls0)) mds (cascade (heap ?ls0) d a)"
    using releaseLayer_loop_cascade[OF d0 p1 p2, of 0 "[]"] by auto
  have fld: "\<And>b. chainID (heap ?ls0 ! b) = chainID (?h ! b) \<and>
                 diffID (heap ?ls0 ! b) = diffID (?h ! b) \<and> size_l (heap ?ls0 ! b) = size_l (?h ! b)"
  proof -
    fix b show "chainID (heap ?ls0 ! b) = chainID (?h ! b) \<and>
                 diffID (heap ?ls0 ! b) = diffID (?h ! b) \<and> size_l (heap ?ls0 ! b) = size_l (?h ! b)"
      using a by (cases "b = a") (simp_all add: h0)
  qed
  have "\<And>md b. b \<in> set (cascade ?h d a) \<Longrightarrow> describes (heap ?ls0) md b = describes ?h md b"
    using inh mp fld by (intro describes_parents) (simp_all add: updLayer_def)
  then have la: "list_all2 (describes ?h) mds (cascade ?h d a)"
    using mds(2) unfolding ca0 by (auto elim!: list.rel_mono_strong)
  show ?thesis
    using assms(1,2) mds(1) la
    by (auto simp: Release_def hasReference_def releaseLayer_def ca0 st0)
qed

lemma chain_store3:
  "depth (heap store3) 2 = Some 3" "chain (heap store3) 3 2 = [2, 1, 0]"
  "cascade (heap store3) 3 2 = [2, 1, 0]" "stopper (heap store3) 3 2 = None"
  "depth (heap store3') 2 = Some 3" "chain (heap store3') 3 2 = [2, 1, 0]"
  "cascade (heap store3') 3 2 = [2]" "stopper (heap store3') 3 2 = Some 1"
  by (simp_all add: store3_def store3'_def layerA_def layerB_def layerC_def depth.simps
      cascade_def stopper_def numeral_3_eq_3)

theorem release_cascade_witness:
  "layerMap store3 ''sha256:A/sha256:B/sha256:C'' = Some 2 \<and> 2 \<in> references (heap store3 ! 2) \<and>
   depth (heap store3) 2 = Some 3 \<and> cascade (heap store3) 3 2 = [2, 1, 0] \<and>
   (\<exists>mds ls'. Release okEnv store3 \<lparr>href = 2, layerChainID = ''sha256:A/sha256:B/sha256:C''\<rparr>
                 = Return (Inr mds, ls') \<and>
       map md_ChainID mds = [''sha256:A/sha256:B/sha256:C'', ''sha256:A/sha256:B'', ''sha256:A''] \<and>
       layerMap ls' = Map.empty \<and> driver ls' = {} \<and> layerRecords (store ls') = []) \<and>
   cascade (heap store3') 3 2 = [2] \<and> stopper (heap store3') 3 2 = Some 1 \<and>
   (\<exists>mds ls'. Release okEnv store3' \<lparr>href = 2, layerChainID = ''sha256:A/sha256:B/sha256:C''\<rparr>
                 = Return (Inr mds, ls') \<and>
       map md_ChainID mds = [''sha256:A/sha256:B/sha256:C''] \<and>
       layerMap ls' = [''sha256:A'' \<mapsto> 0, ''sha256:A/sha256:B'' \<mapsto> 1] \<and>
       referenceCount (heap ls' ! 1) = 1 \<and> heap ls' ! 0 = heap store3' ! 0)"
proof -
  let ?l = "\<lparr>href = 2, layerChainID = ''sha256:A/sha256:B/sha256:C''\<rparr>"
  have i: "layerMap store3 (layerChainID ?l) = Some 2" "href ?l \<in> references (heap store3 ! 2)"
    "layerMap store3' (layerChainID ?l) = Some 2" "href ?l \<in> references (heap store3' ! 2)"
    by (simp_all add: store3_def store3'_def layerC_def)
  have c: "\<forall>b\<in>set (chain (heap store3) 3 2). referenceCount (heap store3 ! b) \<noteq> 0"
    "\<forall>b\<in>set (chain (heap store3') 3 2). referenceCount (heap store3' ! b) \<noteq> 0"
    unfolding chain_store3
    by (simp_all add: store3_def store3'_def layerA_def layerB_def layerC_def)
  have r: "\<forall>b\<in>set (cascade (heap store3) 3 2).
            references (heap store3 ! b) = (if b = 2 then {href ?l} else {}) \<and>
            driverRemove okEnv (cacheID (heap store3 ! b)) = None \<and>
            osRemoveAll okEnv (chainID (heap store3 ! b)) = None"
    "\<forall>b\<in>set (cascade (heap store3') 3 2).
            references (heap store3' ! b) = (if b = 2 then {href ?l} else {}) \<and>
            driverRemove okEnv (cacheID (heap store3' ! b)) = None \<and>
            osRemoveAll okEnv (chainID (heap store3' ! b)) = None"
    unfolding chain_store3
    by (simp_all add: store3_def store3'_def layerA_def layerB_def layerC_def okEnv_def)
  obtain mds where 1:
    "Release okEnv store3 ?l =
       Return (Inr mds, cascaded okEnv (updLayer 2 (deleteReference ?l) store3) [2, 1, 0] None)"
    "list_all2 (describes (heap store3)) mds [2, 1, 0]"
    using release_cascade [OF i(1,2) chain_store3(1) c(1) r(1)] unfolding chain_store3 by blast
  obtain mds' where 2:
    "Release okEnv store3' ?l =
       Return (Inr mds', cascaded okEnv (updLayer 2 (deleteReference ?l) store3') [2] (Some 1))"
    "list_all2 (describes (heap store3')) mds' [2]"
    using release_cascade [OF i(3,4) chain_store3(5) c(2) r(2)] unfolding chain_store3 by blast
  have m1: "map md_ChainID mds = [''sha256:A/sha256:B/sha256:C'', ''sha256:A/sha256:B'', ''sha256:A'']"
    using 1(2)
    by (auto simp: list_all2_Cons2 describes_def store3_def layerA_def layerB_def layerC_def)
  have m2: "map md_ChainID mds' = [''sha256:A/sha256:B/sha256:C'']"
    using 2(2)
    by (auto simp: list_all2_Cons2 describes_def store3'_def layerA_def layerB_def layerC_def)
  have s1: "layerMap (cascaded okEnv (updLayer 2 (deleteReference ?l) store3) [2, 1, 0] None) = Map.empty"
    "driver (cascaded okEnv (updLayer 2 (deleteReference ?l) store3) [2, 1, 0] None) = {}"
    "layerRecords (store (cascaded okEnv (updLayer 2 (deleteReference ?l) store3) [2, 1, 0] None)) = []"
    by (auto simp: cascaded_def updLayer_def deleteReference_def store3_def store3'_def
        layerA_def layerB_def layerC_def okEnv_def fun_eq_iff)
  have s2: "layerMap (cascaded okEnv (updLayer 2 (deleteReference ?l) store3') [2] (Some 1))
               = [''sha256:A'' \<mapsto> 0, ''sha256:A/sha256:B'' \<mapsto> 1]"
    "referenceCount (heap (cascaded okEnv (updLayer 2 (deleteReference ?l) store3') [2] (Some 1)) ! 1) = 1"
    "heap (cascaded okEnv (updLayer 2 (deleteReference ?l) store3') [2] (Some 1)) ! 0 = heap store3' ! 0"
    by (auto simp: cascaded_def updLayer_def deleteReference_def store3'_def layerA_def
        layerB_def layerC_def okEnv_def fun_eq_iff releasedNode_def)
  show ?thesis
    using i chain_store3 1(1) 2(1) m1 m2 s1 s2 by simp
qed

text \<open>
  C2 as stated does not hold for a node that has a child: in \<open>store2\<close> the root has one
  handle and one child; releasing that last handle returns no \<^verbatim>\<open>Metadata\<close> and the
  root stays in the index, with count 1.
\<close>

theorem release_last_handle_keeps_parent:
  "references (heap store2 ! 0) = {0} \<and> layerMap store2 ''sha256:A'' = Some 0 \<and>
   (\<exists>ls'. Release okEnv store2 \<lparr>href = 0, layerChainID = ''sha256:A''\<rparr> = Return (Inr [], ls') \<and>
          layerMap ls' ''sha256:A'' = Some 0 \<and> referenceCount (heap ls' ! 0) = 1 \<and>
          references (heap ls' ! 0) = {} \<and> driver ls' = driver store2 \<and>
          store ls' = store store2)"
  by (simp add: Release_def hasReference_def deleteReference_def releaseLayer_def
      releaseLayer_loop.simps updLayer_def store2_def layerA_def layerB_def)

end
